theory Spec2Isabelle
  imports Complex_Main "HOL-Library.Word"
begin

section \<open>Values, errors and array access\<close>

text \<open>
  The C \<open>double\<close> values of \<open>_vinterp.pyx\<close>. What the code distinguishes is kept: NaN, the
  two infinities and the finite values, with the IEEE rules for every operation that
  meets a NaN or an infinity. Arithmetic on finite values is exact (rationals): rounding,
  overflow of a finite result and the sign of zero are outside this model.
\<close>

datatype double = Num rat | PosInf | NegInf | NaN

definition INFINITY :: double where
  "INFINITY = PosInf"

definition NAN :: double where
  "NAN = NaN"

fun isnan :: "double \<Rightarrow> bool" where
  "isnan NaN = True"
| "isnan _ = False"

fun dneg :: "double \<Rightarrow> double" where
  "dneg (Num x) = Num (- x)"
| "dneg PosInf = NegInf"
| "dneg NegInf = PosInf"
| "dneg NaN = NaN"

fun dadd :: "double \<Rightarrow> double \<Rightarrow> double" where
  "dadd NaN _ = NaN"
| "dadd _ NaN = NaN"
| "dadd (Num x) (Num y) = Num (x + y)"
| "dadd PosInf NegInf = NaN"
| "dadd NegInf PosInf = NaN"
| "dadd PosInf _ = PosInf"
| "dadd NegInf _ = NegInf"
| "dadd (Num x) PosInf = PosInf"
| "dadd (Num x) NegInf = NegInf"

definition dsub :: "double \<Rightarrow> double \<Rightarrow> double" where
  "dsub a b = dadd a (dneg b)"

text \<open>The sign of a value as the multiplication and division rules need it.\<close>

fun dpositive :: "double \<Rightarrow> bool" where
  "dpositive (Num x) = (0 \<le> x)"
| "dpositive PosInf = True"
| "dpositive NegInf = False"
| "dpositive NaN = False"

definition signed_inf :: "bool \<Rightarrow> double" where
  "signed_inf pos = (if pos then PosInf else NegInf)"

fun dmul :: "double \<Rightarrow> double \<Rightarrow> double" where
  "dmul NaN _ = NaN"
| "dmul _ NaN = NaN"
| "dmul (Num x) (Num y) = Num (x * y)"
| "dmul (Num x) b = (if x = 0 then NaN else signed_inf (dpositive (Num x) = dpositive b))"
| "dmul a (Num y) = (if y = 0 then NaN else signed_inf (dpositive a = dpositive (Num y)))"
| "dmul a b = signed_inf (dpositive a = dpositive b)"

fun ddiv :: "double \<Rightarrow> double \<Rightarrow> double" where
  "ddiv NaN _ = NaN"
| "ddiv _ NaN = NaN"
| "ddiv (Num x) (Num y) =
     (if y = 0 then (if x = 0 then NaN else signed_inf (0 < x)) else Num (x / y))"
| "ddiv (Num x) b = Num 0"
| "ddiv a (Num y) = signed_inf (dpositive a = dpositive (Num y))"
| "ddiv a b = NaN"

fun dfabs :: "double \<Rightarrow> double" where
  "dfabs (Num x) = Num \<bar>x\<bar>"
| "dfabs PosInf = PosInf"
| "dfabs NegInf = PosInf"
| "dfabs NaN = NaN"

text \<open>The comparisons of C: every comparison with a NaN is false.\<close>

fun dlt :: "double \<Rightarrow> double \<Rightarrow> bool" where
  "dlt NaN _ = False"
| "dlt _ NaN = False"
| "dlt (Num x) (Num y) = (x < y)"
| "dlt PosInf _ = False"
| "dlt _ NegInf = False"
| "dlt NegInf _ = True"
| "dlt (Num x) PosInf = True"

definition deq :: "double \<Rightarrow> double \<Rightarrow> bool" where
  "deq a b = (\<not> isnan a \<and> \<not> isnan b \<and> a = b)"

definition dle :: "double \<Rightarrow> double \<Rightarrow> bool" where
  "dle a b = (dlt a b \<or> deq a b)"

definition dgt :: "double \<Rightarrow> double \<Rightarrow> bool" where
  "dgt a b = dlt b a"

text \<open>
  Every failure of the module is a value. The six kinds the module raises are all
  \<open>ValueError\<close> in the source, told apart by their message. \<open>TupleIndexError\<close>,
  \<open>ZeroDivisionError\<close>, \<open>ReshapeError\<close> and \<open>BufferDimensionError\<close> are raised by
  Python and numpy under the driver. \<open>OutOfBounds\<close> stands for a read or write outside
  an array: the kernels are compiled with \<open>boundscheck(False)\<close>, so the C behaviour is
  undefined there, and the model stops with this value.
\<close>

datatype error =
    InvalidTarget
  | InvalidSource
  | ShapeMismatch
  | AxisOutOfRange
  | AmbiguousDirection
  | InsufficientData
  | TupleIndexError
  | ZeroDivisionError
  | ReshapeError
  | BufferDimensionError
  | OutOfBounds

definition bindE :: "'e + 'a \<Rightarrow> ('a \<Rightarrow> 'e + 'b) \<Rightarrow> 'e + 'b" where
  "bindE m f = (case m of Inl e \<Rightarrow> Inl e | Inr x \<Rightarrow> f x)"

text \<open>
  The module is compiled without the \<open>cdivision\<close> directive, so a division of two
  \<open>double\<close> values tests the divisor first and raises \<open>ZeroDivisionError\<close> when it is
  zero; \<open>ddiv\<close> is the division that runs otherwise.
\<close>

definition cdivide :: "double \<Rightarrow> double \<Rightarrow> error + double" where
  "cdivide a b = (if deq b (Num 0) then Inl ZeroDivisionError else Inr (ddiv a b))"

primrec mapE :: "('a \<Rightarrow> 'e + 'b) \<Rightarrow> 'a list \<Rightarrow> 'e + 'b list" where
  "mapE f [] = Inr []"
| "mapE f (x # xs) = bindE (f x) (\<lambda>y. bindE (mapE f xs) (\<lambda>ys. Inr (y # ys)))"

text \<open>\<open>unsigned int\<close> is 32 bits wide; an array extent stored in one is truncated.\<close>

type_synonym uint = "32 word"

definition u32 :: "nat \<Rightarrow> uint" where
  "u32 n = word_of_nat n"

definition rd :: "'a list \<Rightarrow> nat \<Rightarrow> error + 'a" where
  "rd xs i = (if i < length xs then Inr (xs ! i) else Inl OutOfBounds)"

text \<open>
  A two-dimensional memory view \<open>double[:, :]\<close>: its rows, and the extent of its second
  axis (which the extrapolation kernels read even when there is no row).
\<close>

record view2 =
  rows :: "double list list"
  shape1 :: nat

definition shape0 :: "view2 \<Rightarrow> nat" where
  "shape0 v = length (rows v)"

definition rd2 :: "view2 \<Rightarrow> nat \<Rightarrow> nat \<Rightarrow> error + double" where
  "rd2 v i j = bindE (rd (rows v) i) (\<lambda>r. if j < shape1 v then rd r j else Inl OutOfBounds)"

text \<open>The output view \<open>fz_target\<close> is only written; it is a list of rows.\<close>

type_synonym buffer = "double list list"

definition wr2 :: "buffer \<Rightarrow> nat \<Rightarrow> nat \<Rightarrow> double \<Rightarrow> error + buffer" where
  "wr2 buf i j v =
     (if i < length buf \<and> j < length (buf ! i)
      then Inr (buf[i := (buf ! i)[j := v]]) else Inl OutOfBounds)"

section \<open>The kernels\<close>

text \<open>
  A kernel fills the column \<open>fz_target[:]\<close> of the current target, one value per row of
  \<open>fz_src\<close>. The model returns the values in row order; the marcher stores them in the
  column. The source reads \<open>fz_src\<close> and writes \<open>fz_target\<close> in the same loop; the two
  arrays are distinct, so computing the column first gives the same result.
\<close>

type_synonym interp_kernel = "uint \<Rightarrow> double list \<Rightarrow> view2 \<Rightarrow> double \<Rightarrow> error + double list"
type_synonym extrap_kernel = "int \<Rightarrow> double list \<Rightarrow> view2 \<Rightarrow> double \<Rightarrow> error + double list"

definition row_range :: "view2 \<Rightarrow> nat list" where
  "row_range fz_src = [0..<unat (u32 (shape0 fz_src))]"

definition copy_column :: "view2 \<Rightarrow> uint \<Rightarrow> error + double list" where
  "copy_column fz_src index = mapE (\<lambda>i. rd2 fz_src i (unat index)) (row_range fz_src)"

definition linear_interp :: interp_kernel where
  "linear_interp index z_src fz_src level =
     bindE (rd z_src (unat index)) (\<lambda>z_hi.
       if deq level z_hi then copy_column fz_src index
       else
         bindE (rd z_src (unat (index - 1))) (\<lambda>z_lo.
         bindE (cdivide (dsub level z_lo) (dsub z_hi z_lo)) (\<lambda>frac.
           mapE (\<lambda>i.
               bindE (rd2 fz_src i (unat (index - 1))) (\<lambda>f_lo.
               bindE (rd2 fz_src i (unat index)) (\<lambda>f_hi.
                 Inr (dadd f_lo (dmul frac (dsub f_hi f_lo))))))
             (row_range fz_src))))"

definition nearest_interp :: interp_kernel where
  "nearest_interp index z_src fz_src level =
     bindE
       (if index \<noteq> 0 then
          bindE (rd z_src (unat (index - 1))) (\<lambda>z_lo.
          bindE (rd z_src (unat index)) (\<lambda>z_hi.
            Inr (dle (dfabs (dsub level z_lo)) (dfabs (dsub level z_hi)))))
        else Inr False)
       (\<lambda>lower_is_nearest.
          let nearest_index = (if lower_is_nearest then index - 1 else index)
          in copy_column fz_src nearest_index)"

definition testable_indez_interp :: interp_kernel where
  "testable_indez_interp index z_src fz_src level =
     Inr (map (\<lambda>i. Num (of_nat (unat index))) (row_range fz_src))"

definition nearest_edge_extrap :: extrap_kernel where
  "nearest_edge_extrap direction z_src fz_src level =
     (let index = (if direction < 0 then 0 else u32 (shape1 fz_src) - 1)
      in copy_column fz_src index)"

definition linear_extrap :: extrap_kernel where
  "linear_extrap direction z_src fz_src level =
     (let n_src_pts = u32 (shape1 fz_src) in
      if n_src_pts < 2 then Inl InsufficientData
      else
        let p0 = (if direction < 0 then 0 else n_src_pts - 2);
            p1 = (if direction < 0 then 1 else n_src_pts - 1)
        in
          bindE (rd z_src (unat p0)) (\<lambda>z0.
          bindE (rd z_src (unat p1)) (\<lambda>z1.
          bindE (cdivide (dsub level z0) (dsub z1 z0)) (\<lambda>frac.
            mapE (\<lambda>i.
                bindE (rd2 fz_src i (unat p0)) (\<lambda>f0.
                bindE (rd2 fz_src i (unat p1)) (\<lambda>f1.
                  Inr (dadd f0 (dmul frac (dsub f1 f0))))))
              (row_range fz_src)))))"

definition nan_data_extrap :: extrap_kernel where
  "nan_data_extrap direction z_src fz_src level =
     Inr (map (\<lambda>i. NAN) (row_range fz_src))"

definition testable_direction_extrap :: extrap_kernel where
  "testable_direction_extrap direction z_src fz_src level =
     (let v = (if direction < 0 then dneg INFINITY else INFINITY)
      in Inr (map (\<lambda>i. v) (row_range fz_src)))"

text \<open>The kernel objects exposed to the caller, and the function each one holds.\<close>

datatype InterpKernel = INTERPOLATE_LINEAR | INTERPOLATE_NEAREST | TestableIndexInterpKernel

datatype ExtrapKernel =
  EXTRAPOLATE_NAN | EXTRAPOLATE_NEAREST | EXTRAPOLATE_LINEAR | TestableDirectionExtrapKernel

fun interp_kernel_of :: "InterpKernel \<Rightarrow> interp_kernel" where
  "interp_kernel_of INTERPOLATE_LINEAR = linear_interp"
| "interp_kernel_of INTERPOLATE_NEAREST = nearest_interp"
| "interp_kernel_of TestableIndexInterpKernel = testable_indez_interp"

fun extrap_kernel_of :: "ExtrapKernel \<Rightarrow> extrap_kernel" where
  "extrap_kernel_of EXTRAPOLATE_NAN = nan_data_extrap"
| "extrap_kernel_of EXTRAPOLATE_NEAREST = nearest_edge_extrap"
| "extrap_kernel_of EXTRAPOLATE_LINEAR = linear_extrap"
| "extrap_kernel_of TestableDirectionExtrapKernel = testable_direction_extrap"

section \<open>The column marcher\<close>

definition relative_sign :: "double \<Rightarrow> double \<Rightarrow> int" where
  "relative_sign z z_base =
     (let delta = dsub z z_base
      in (if dgt delta (Num 0) then 1 else 0) - (if dlt delta (Num 0) then 1 else 0))"

text \<open>
  The variables of \<open>gridwise_interpolation\<close> that live across the targets: the edges of
  the search window, the cursor into \<open>z_src\<close> and the extrapolation flag.
\<close>

record march_state =
  z_before :: double
  z_after :: double
  i_src :: uint
  extrapolating :: int

text \<open>
  The \<open>while sign_before == sign_after\<close> loop for one target. The cursor is an
  \<open>unsigned int\<close>: \<open>i_src += 1\<close> wraps around. The loop ends because it only goes
  round again while the incremented cursor is below \<open>n_src\<close>.
\<close>

function advance ::
  "double list \<Rightarrow> double \<Rightarrow> double \<Rightarrow> int \<Rightarrow> march_state \<Rightarrow> int \<Rightarrow> error + march_state \<times> int"
where
  "advance z_src z_last z_current sign_before st sign_after =
     (if sign_before = sign_after then
        (let i = i_src st + 1 in
         if i < u32 (length z_src) then
           (case rd z_src (unat i) of
              Inl e \<Rightarrow> Inl e
            | Inr z \<Rightarrow>
                if isnan z then Inl InvalidSource
                else advance z_src z_last z_current sign_before
                       (st\<lparr>i_src := i, extrapolating := 0, z_after := z\<rparr>)
                       (relative_sign z z_current))
         else
           Inr (st\<lparr>i_src := i, extrapolating := 1, z_after := z_last\<rparr>,
                relative_sign z_last z_current))
      else Inr (st, sign_after))"
  by pat_completeness auto

termination advance
proof (relation "measure (\<lambda>(z_src, z_last, z_current, sign_before, st, sign_after).
         unat (u32 (length z_src) - i_src st - 1))", goal_cases)
  case 1
  show ?case by simp
next
  case (2 z_src z_last z_current sign_before st sign_after i z)
  let ?left = "u32 (length z_src) - i_src st - 1"
  have "?left \<noteq> 0"
  proof
    assume "?left = 0"
    then have "u32 (length z_src) = i_src st + 1"
      by (simp add: algebra_simps)
    with 2(2,3) show False
      by simp
  qed
  then have "unat (?left - 1) < unat ?left"
    by (rule measure_unat)
  moreover have "u32 (length z_src) - (i_src st + 1) - 1 = ?left - 1"
    by simp
  ultimately show ?case
    using 2(2) by simp
qed

declare advance.simps [simp del]

text \<open>
  Finding the window of one target: the two signs, then the loop. The result is the
  state with the window moved (its lower edge not yet) and the last \<open>sign_after\<close>.
\<close>

definition locate ::
  "double list \<Rightarrow> double \<Rightarrow> march_state \<Rightarrow> double \<Rightarrow> error + march_state \<times> int" where
  "locate z_src z_last st z_current =
     (let sign_before = relative_sign (z_before st) z_current;
          sign_after = relative_sign (z_after st) z_current
      in advance z_src z_last z_current sign_before st sign_after)"

text \<open>Which kernel the marcher calls for the target, and with what first argument.\<close>

datatype kernel_call = Interpolate uint | Extrapolate int

definition dispatch :: "march_state \<Rightarrow> int \<Rightarrow> kernel_call" where
  "dispatch st sign_after =
     (if extrapolating st = 0 \<or> sign_after = 0 then Interpolate (i_src st)
      else Extrapolate (extrapolating st))"

fun invoke ::
  "interp_kernel \<Rightarrow> extrap_kernel \<Rightarrow> double list \<Rightarrow> view2 \<Rightarrow> double \<Rightarrow> kernel_call
     \<Rightarrow> error + double list" where
  "invoke interpolation_kernel extrapolation_kernel z_src fz_src z_current (Interpolate i) =
     interpolation_kernel i z_src fz_src z_current"
| "invoke interpolation_kernel extrapolation_kernel z_src fz_src z_current (Extrapolate d) =
     extrapolation_kernel d z_src fz_src z_current"

text \<open>
  The body of the loop over the targets: the NaN check, the search, the kernel call and
  the move of the window's lower edge. It returns the new state and the column of values
  for \<open>fz_target[:, i_target]\<close>.
\<close>

definition target_step ::
  "interp_kernel \<Rightarrow> extrap_kernel \<Rightarrow> double list \<Rightarrow> view2 \<Rightarrow> double \<Rightarrow> march_state \<Rightarrow> double
     \<Rightarrow> error + march_state \<times> double list" where
  "target_step interpolation_kernel extrapolation_kernel z_src fz_src z_last st z_current =
     (if isnan z_current then Inl InvalidTarget
      else
        bindE (locate z_src z_last st z_current) (\<lambda>(st', sign_after).
        bindE (invoke interpolation_kernel extrapolation_kernel z_src fz_src z_current
                 (dispatch st' sign_after)) (\<lambda>col.
          Inr (st'\<lparr>z_before := z_current\<rparr>, col))))"

primrec foldE :: "('a \<Rightarrow> 's \<Rightarrow> 'e + 's) \<Rightarrow> 'a list \<Rightarrow> 's \<Rightarrow> 'e + 's" where
  "foldE f [] s = Inr s"
| "foldE f (x # xs) s = bindE (f x s) (foldE f xs)"

definition store_column :: "buffer \<Rightarrow> nat \<Rightarrow> double list \<Rightarrow> error + buffer" where
  "store_column buf i_target col =
     foldE (\<lambda>i b. wr2 b i i_target (col ! i)) [0..<length col] buf"

text \<open>
  The loop over the targets. A failure leaves the loop at once; the result then carries
  the error and the output buffer as it was at that moment.
\<close>

fun march ::
  "interp_kernel \<Rightarrow> extrap_kernel \<Rightarrow> double list \<Rightarrow> view2 \<Rightarrow> double \<Rightarrow> nat \<Rightarrow> double list
     \<Rightarrow> march_state \<Rightarrow> buffer \<Rightarrow> error \<times> buffer + buffer" where
  "march ik ek z_src fz_src z_last i_target [] st buf = Inr buf"
| "march ik ek z_src fz_src z_last i_target (z_current # rest) st buf =
     (case target_step ik ek z_src fz_src z_last st z_current of
        Inl e \<Rightarrow> Inl (e, buf)
      | Inr (st', col) \<Rightarrow>
          (case store_column buf i_target col of
             Inl e \<Rightarrow> Inl (e, buf)
           | Inr buf' \<Rightarrow> march ik ek z_src fz_src z_last (Suc i_target) rest st' buf'))"

text \<open>
  The state of the loop once it has gone through a run of targets (the same loop, the
  output left aside).
\<close>

fun state_after ::
  "interp_kernel \<Rightarrow> extrap_kernel \<Rightarrow> double list \<Rightarrow> view2 \<Rightarrow> double \<Rightarrow> march_state
     \<Rightarrow> double list \<Rightarrow> error + march_state" where
  "state_after ik ek z_src fz_src z_last st [] = Inr st"
| "state_after ik ek z_src fz_src z_last st (z_current # rest) =
     (case target_step ik ek z_src fz_src z_last st z_current of
        Inl e \<Rightarrow> Inl e
      | Inr (st', col) \<Rightarrow> state_after ik ek z_src fz_src z_last st' rest)"

text \<open>The scan for a source coordinate that has only NaN values.\<close>

fun scan_all_nans :: "double list \<Rightarrow> bool" where
  "scan_all_nans [] = True"
| "scan_all_nans (z # zs) = (if \<not> isnan z then False else scan_all_nans zs)"

definition source_all_nans :: "double list \<Rightarrow> double list \<Rightarrow> error + bool" where
  "source_all_nans z_target z_src =
     (if u32 (length z_target) \<noteq> 0 then
        bindE (rd z_src 0) (\<lambda>z0.
          Inr (isnan z0 \<and> scan_all_nans (take (unat (u32 (length z_src))) z_src)))
      else Inr False)"

definition fill_nan :: "buffer \<Rightarrow> nat \<Rightarrow> error + buffer" where
  "fill_nan fz_target n_target =
     foldE (\<lambda>i. foldE (\<lambda>i_target b. wr2 b i i_target NAN) [0..<n_target])
       [0..<unat (u32 (length fz_target))] fz_target"

definition window_start :: "bool \<Rightarrow> double" where
  "window_start increasing = (if increasing then dneg INFINITY else INFINITY)"

definition initial_state :: "bool \<Rightarrow> double \<Rightarrow> march_state" where
  "initial_state increasing z0 =
     \<lparr>z_before = window_start increasing, z_after = z0, i_src = 0, extrapolating = - 1\<rparr>"

definition gridwise_interpolation ::
  "double list \<Rightarrow> double list \<Rightarrow> view2 \<Rightarrow> bool \<Rightarrow> interp_kernel \<Rightarrow> extrap_kernel \<Rightarrow> buffer
     \<Rightarrow> error \<times> buffer + buffer" where
  "gridwise_interpolation z_target z_src fz_src increasing interpolation_kernel
       extrapolation_kernel fz_target =
     (let n_target = u32 (length z_target) in
      case source_all_nans z_target z_src of
        Inl e \<Rightarrow> Inl (e, fz_target)
      | Inr True \<Rightarrow>
          (case fill_nan fz_target (unat n_target) of
             Inl e \<Rightarrow> Inl (e, fz_target)
           | Inr buf \<Rightarrow> Inr buf)
      | Inr False \<Rightarrow>
          (case rd z_src 0 of
             Inl e \<Rightarrow> Inl (e, fz_target)
           | Inr z0 \<Rightarrow>
               march interpolation_kernel extrapolation_kernel z_src fz_src
                 (dneg (window_start increasing)) 0 (take (unat n_target) z_target)
                 (initial_state increasing z0) fz_target))"

text \<open>
  The states the marcher can be in before a target: the initial one, and every state
  that the search for a target leaves behind. (The kernels do not touch the state.)
\<close>

inductive reachable :: "double list \<Rightarrow> bool \<Rightarrow> march_state \<Rightarrow> bool"
  for z_src :: "double list" and increasing :: bool where
  start: "rd z_src 0 = Inr z0 \<Longrightarrow> reachable z_src increasing (initial_state increasing z0)"
| next_target:
    "reachable z_src increasing st \<Longrightarrow> \<not> isnan z_current \<Longrightarrow>
     locate z_src (dneg (window_start increasing)) st z_current = Inr (st', sign_after) \<Longrightarrow>
     reachable z_src increasing (st'\<lparr>z_before := z_current\<rparr>)"

text \<open>
  Two properties of a state, used to state what the marcher keeps true. \<open>window_ok\<close>
  says what the flag means: \<open>-1\<close> while the cursor has never moved (the upper edge is
  \<open>z_src[0]\<close>), \<open>0\<close> while the upper edge is the sample under the cursor, \<open>+1\<close> once
  the cursor has left the source (the upper edge is \<open>z_last\<close>). \<open>distinct_bracket\<close> says
  that a cursor inside the source, past index 0, stands on a sample that differs from
  the one before it.
\<close>

definition window_ok :: "double list \<Rightarrow> double \<Rightarrow> march_state \<Rightarrow> bool" where
  "window_ok z_src z_last st =
     (extrapolating st = - 1 \<and> i_src st = 0 \<and> rd z_src 0 = Inr (z_after st)
      \<or> extrapolating st = 0 \<and> i_src st < u32 (length z_src)
          \<and> z_after st = z_src ! unat (i_src st) \<and> \<not> isnan (z_after st)
      \<or> extrapolating st = 1 \<and> \<not> i_src st < u32 (length z_src) \<and> z_after st = z_last)"

definition distinct_bracket :: "double list \<Rightarrow> march_state \<Rightarrow> bool" where
  "distinct_bracket z_src st =
     (i_src st = 0 \<or> \<not> i_src st < u32 (length z_src)
      \<or> z_src ! unat (i_src st - 1) \<noteq> z_src ! unat (i_src st))"

text \<open>
  What the caller guarantees about a view: its extents fit an \<open>unsigned int\<close> and every
  row has the extent of the second axis.
\<close>

definition wf_view2 :: "view2 \<Rightarrow> bool" where
  "wf_view2 v = (shape0 v < 2 ^ 32 \<and> list_all (\<lambda>r. length r = shape1 v) (rows v))"

section \<open>The dimensional driver\<close>

text \<open>
  An array as numpy holds it: its shape and its elements in row-major order. The elements
  are the \<open>float64\<close> values the driver works on (\<open>np.array(..., dtype=np.float64)\<close> and
  \<open>astype(np.float64)\<close> have been applied); the element type the data came with is
  passed beside the array.
\<close>

record ndarray =
  shape :: "nat list"
  data :: "double list"

text \<open>
  Element types: \<open>f8\<close>, which the driver names, and any other by its numpy name.
  \<open>np.issubdtype(fz_src.dtype, int)\<close> is numpy's; the driver takes the test as the
  parameter \<open>issubdtype_int\<close>.
\<close>

datatype dtype = F8 | Other_dtype string

text \<open>
  What numpy answers to \<open>np.issubdtype(dtype, int)\<close>. Python's \<open>int\<close> stands for the
  default integer type \<open>i8\<close>: the test holds for \<open>i8\<close>, and holds for no unsigned and
  no floating type. For the narrower signed types it depends on the numpy release: older
  releases compare with the abstract signed integer type (the test holds), later ones
  with \<open>i8\<close> itself (it does not). \<open>legacy_numpy\<close> says which release is meant.
\<close>

definition signed_dtypes :: "dtype list" where
  "signed_dtypes = [Other_dtype ''i1'', Other_dtype ''i2'', Other_dtype ''i4'', Other_dtype ''i8'']"



definition np_issubdtype_int :: "bool \<Rightarrow> dtype \<Rightarrow> bool" where
  "np_issubdtype_int legacy_numpy d =
     (d = Other_dtype ''i8'' \<or> legacy_numpy \<and> d \<in> set signed_dtypes)"

text \<open>
  The Python and numpy operations under \<open>__init__\<close>: indexing a shape tuple (negative
  indices count from the end), \<open>%\<close>, the slice \<open>shape[-k:]\<close>, \<open>np.cumprod\<close>, and the
  extent that \<open>reshape\<close> infers for a \<open>-1\<close> from the number of elements and the product
  of the other extents.
\<close>

definition py_tuple_index :: "'a list \<Rightarrow> int \<Rightarrow> error + 'a" where
  "py_tuple_index xs i =
     (if 0 \<le> i \<and> i < int (length xs) then Inr (xs ! nat i)
      else if i < 0 \<and> - int (length xs) \<le> i then Inr (xs ! nat (int (length xs) + i))
      else Inl TupleIndexError)"

definition py_mod :: "int \<Rightarrow> int \<Rightarrow> error + int" where
  "py_mod a b = (if b = 0 then Inl ZeroDivisionError else Inr (a mod b))"

definition py_slice_last :: "'a list \<Rightarrow> nat \<Rightarrow> 'a list" where
  "py_slice_last xs k = (if k = 0 then xs else drop (length xs - k) xs)"

fun cumprod_from :: "nat \<Rightarrow> nat list \<Rightarrow> nat list" where
  "cumprod_from acc [] = []"
| "cumprod_from acc (x # xs) = (acc * x) # cumprod_from (acc * x) xs"

definition cumprod :: "nat list \<Rightarrow> nat list" where
  "cumprod xs = cumprod_from 1 xs"

definition reshape_infer :: "nat \<Rightarrow> nat \<Rightarrow> error + nat" where
  "reshape_infer n_elems known =
     (if known = 0 \<or> n_elems mod known \<noteq> 0 then Inl ReshapeError else Inr (n_elems div known))"

text \<open>The attributes of \<open>_Interpolator\<close> that \<open>__init__\<close> sets.\<close>

record Interpolator =
  self_target_dtype :: dtype
  self_rising :: bool
  self_z_target :: ndarray
  self_orig_shape :: "nat list"
  self_axis :: int
  self_zp_reshaped :: ndarray
  self_fp_reshaped :: ndarray
  self_result_working_shape :: "nat list"
  self_result_shape :: "nat list"
  self_interpolation :: interp_kernel
  self_extrapolation :: extrap_kernel

text \<open>
  \<open>rising = first_two[0] <= first_two[1]\<close>: the first two coordinate values along the
  axis, all other indices 0 (the source indexes \<open>z_src\<close> with a list of these indices
  and the slice \<open>0:2\<close>, read as a tuple); the second value lies one stride of the axis
  after the first.
\<close>

definition first_two_rising :: "ndarray \<Rightarrow> nat \<Rightarrow> error + bool" where
  "first_two_rising z_src zp_axis =
     bindE (rd (data z_src) 0) (\<lambda>first.
     bindE (rd (data z_src) (prod_list (drop (Suc zp_axis) (shape z_src)))) (\<lambda>second.
       Inr (dle first second)))"

text \<open>
  \<open>__init__\<close> in two parts. \<open>init_after_axis\<close> is everything after the axis check: the
  shape check, the two reshapes, the shapes of the result and the direction.
  \<open>Interpolator_init\<close> is the start: the extent of the target, the axis in absolute
  terms and the axis check. (The result element type is computed first in the source; it
  raises nothing, so its place does not matter.)
\<close>

definition init_after_axis ::
  "(dtype \<Rightarrow> bool) \<Rightarrow> ndarray \<Rightarrow> ndarray \<Rightarrow> ndarray \<Rightarrow> dtype \<Rightarrow> int \<Rightarrow> bool option
     \<Rightarrow> InterpKernel \<Rightarrow> ExtrapKernel \<Rightarrow> nat \<Rightarrow> int \<Rightarrow> int \<Rightarrow> error + Interpolator" where
  "init_after_axis issubdtype_int z_target z_src fz_src fz_dtype axis rising interpolation
       extrapolation z_target_size fp_axis zp_axis =
          (if shape z_src \<noteq> py_slice_last (shape fz_src) (length (shape z_src))
          then Inl ShapeMismatch
          else
            let lh_dim_size = (1 # cumprod (shape z_src)) ! nat zp_axis;
                axis_size = shape z_src ! nat zp_axis
            in
              bindE (reshape_infer (prod_list (shape z_src)) (lh_dim_size * axis_size))
                (\<lambda>trailing.
              let zp_shape = [lh_dim_size, axis_size, trailing] in
              bindE (reshape_infer (prod_list (shape fz_src)) (prod_list zp_shape))
                (\<lambda>row_count.
              let fp_shape = row_count # zp_shape;
                  result_working_shape = fp_shape[2 := z_target_size];
                  result_shape = (shape fz_src)[nat fp_axis := z_target_size]
              in
                bindE (case rising of
                         Some r \<Rightarrow> Inr r
                       | None \<Rightarrow>
                           if axis_size < 2 then Inl AmbiguousDirection
                           else first_two_rising z_src (nat zp_axis)) (\<lambda>rising'.
                  Inr \<lparr>self_target_dtype = (if issubdtype_int fz_dtype then F8 else fz_dtype),
                       self_rising = rising',
                       self_z_target = z_target,
                       self_orig_shape = shape fz_src,
                       self_axis = axis,
                       self_zp_reshaped = \<lparr>shape = zp_shape, data = data z_src\<rparr>,
                       self_fp_reshaped = \<lparr>shape = fp_shape, data = data fz_src\<rparr>,
                       self_result_working_shape = result_working_shape,
                       self_result_shape = result_shape,
                       self_interpolation = interp_kernel_of interpolation,
                       self_extrapolation = extrap_kernel_of extrapolation\<rparr>))))"

definition Interpolator_init ::
  "(dtype \<Rightarrow> bool) \<Rightarrow> ndarray \<Rightarrow> ndarray \<Rightarrow> ndarray \<Rightarrow> dtype \<Rightarrow> int \<Rightarrow> bool option
     \<Rightarrow> InterpKernel \<Rightarrow> ExtrapKernel \<Rightarrow> error + Interpolator" where
  "Interpolator_init issubdtype_int z_target z_src fz_src fz_dtype axis rising interpolation
       extrapolation =
     (let fz_ndim = int (length (shape fz_src));
          z_ndim = int (length (shape z_src))
      in
        bindE (if length (shape z_target) = 1 then Inr (shape z_target ! 0)
               else py_tuple_index (shape z_target) axis) (\<lambda>z_target_size.
        bindE (py_mod (axis + fz_ndim) fz_ndim) (\<lambda>fp_axis.
          let zp_axis = fp_axis - (fz_ndim - z_ndim) in
          if \<not> (0 \<le> zp_axis \<and> zp_axis < z_ndim) \<or> axis > z_ndim then Inl AxisOutOfRange
          else init_after_axis issubdtype_int z_target z_src fz_src fz_dtype axis rising
                 interpolation extrapolation z_target_size fp_axis zp_axis)))"

text \<open>
  The working layout. \<open>z_src[i, :, j]\<close>, \<open>fz_src[:, i, :, j]\<close> and
  \<open>fz_target_view[:, i, :, j]\<close> are views into row-major arrays of rank 3 and 4. The
  marcher writes through the last one; the model takes the view out of the buffer, runs
  the marcher on it and puts the result back in the same cells.
\<close>

definition index3 :: "nat list \<Rightarrow> nat \<Rightarrow> nat \<Rightarrow> nat \<Rightarrow> nat" where
  "index3 shp i k j = (i * shp ! 1 + k) * shp ! 2 + j"

definition index4 :: "nat list \<Rightarrow> nat \<Rightarrow> nat \<Rightarrow> nat \<Rightarrow> nat \<Rightarrow> nat" where
  "index4 shp r i k j = ((r * shp ! 1 + i) * shp ! 2 + k) * shp ! 3 + j"

definition z_column :: "ndarray \<Rightarrow> nat \<Rightarrow> nat \<Rightarrow> double list" where
  "z_column z i j = map (\<lambda>k. data z ! index3 (shape z) i k j) [0..<shape z ! 1]"

definition fz_columns :: "ndarray \<Rightarrow> nat \<Rightarrow> nat \<Rightarrow> view2" where
  "fz_columns fz i j =
     \<lparr>rows = map (\<lambda>r. map (\<lambda>k. data fz ! index4 (shape fz) r i k j) [0..<shape fz ! 2])
               [0..<shape fz ! 0],
      shape1 = shape fz ! 2\<rparr>"

definition get_view :: "nat list \<Rightarrow> double list \<Rightarrow> nat \<Rightarrow> nat \<Rightarrow> buffer" where
  "get_view shp cells i j =
     map (\<lambda>r. map (\<lambda>t. cells ! index4 shp r i t j) [0..<shp ! 2]) [0..<shp ! 0]"

definition put_view :: "nat list \<Rightarrow> double list \<Rightarrow> nat \<Rightarrow> nat \<Rightarrow> buffer \<Rightarrow> double list" where
  "put_view shp cells i j view =
     fold (\<lambda>r. fold (\<lambda>t c. c[index4 shp r i t j := view ! r ! t]) [0..<shp ! 2])
       [0..<shp ! 0] cells"

text \<open>
  \<open>np.empty\<close> returns an array of the given shape with unspecified contents:
  \<open>garbage\<close> gives the contents, cell by cell.
\<close>

definition np_empty :: "(nat \<Rightarrow> double) \<Rightarrow> nat list \<Rightarrow> double list" where
  "np_empty garbage shp = map garbage [0..<prod_list shp]"

text \<open>
  The array \<open>interpolate\<close> returns: its shape, its element type, and its values before
  the final \<open>astype\<close> converts them to that type.
\<close>

record result_array =
  res_shape :: "nat list"
  res_dtype :: dtype
  res_values :: "double list"

text \<open>
  \<open>interpolate\<close> of \<open>_Interpolator\<close>. \<open>column_march\<close> is one call of the marcher on the
  views of a column, \<open>march_columns\<close> the loops \<open>for j in range(nj): for i in
  range(ni)\<close> over the fresh output array; the target has to be one-dimensional to be
  taken as \<open>double[:]\<close>, and the final \<open>reshape\<close> needs the two shapes to have the same
  number of elements. An error in a column ends the call: nothing is returned.
\<close>

definition column_loop :: "nat \<Rightarrow> nat \<Rightarrow> (nat \<times> nat) list" where
  "column_loop ni nj = concat (map (\<lambda>j. map (\<lambda>i. (i, j)) [0..<ni]) [0..<nj])"

definition column_march :: "Interpolator \<Rightarrow> nat \<times> nat \<Rightarrow> double list \<Rightarrow> error + double list" where
  "column_march self =
     (\<lambda>(i, j) cells.
        case gridwise_interpolation (data (self_z_target self))
               (z_column (self_zp_reshaped self) i j)
               (fz_columns (self_fp_reshaped self) i j)
               (self_rising self) (self_interpolation self) (self_extrapolation self)
               (get_view (self_result_working_shape self) cells i j) of
          Inl (e, _) \<Rightarrow> Inl e
        | Inr view \<Rightarrow> Inr (put_view (self_result_working_shape self) cells i j view))"

definition march_columns :: "(nat \<Rightarrow> double) \<Rightarrow> Interpolator \<Rightarrow> error + double list" where
  "march_columns garbage self =
     (let wshape = self_result_working_shape self;
          fz_target = np_empty garbage wshape;
          ni = unat (u32 (wshape ! 1));
          nj = unat (u32 (wshape ! 3))
      in foldE (column_march self) (column_loop ni nj) fz_target)"

definition Interpolator_interpolate :: "(nat \<Rightarrow> double) \<Rightarrow> Interpolator \<Rightarrow> error + result_array" where
  "Interpolator_interpolate garbage self =
     (if length (shape (self_z_target self)) \<noteq> 1 then Inl BufferDimensionError
      else
        bindE (march_columns garbage self) (\<lambda>cells.
          if prod_list (self_result_shape self) \<noteq> prod_list (self_result_working_shape self)
          then Inl ReshapeError
          else Inr \<lparr>res_shape = self_result_shape self,
                    res_dtype = self_target_dtype self,
                    res_values = cells\<rparr>))"

definition interpolate ::
  "(dtype \<Rightarrow> bool) \<Rightarrow> (nat \<Rightarrow> double) \<Rightarrow> ndarray \<Rightarrow> ndarray \<Rightarrow> ndarray \<Rightarrow> dtype \<Rightarrow> int
     \<Rightarrow> bool option \<Rightarrow> InterpKernel \<Rightarrow> ExtrapKernel \<Rightarrow> error + result_array" where
  "interpolate issubdtype_int garbage z_target z_src fz_src fz_dtype axis rising interpolation
       extrapolation =
     bindE (Interpolator_init issubdtype_int z_target z_src fz_src fz_dtype axis rising
              interpolation extrapolation)
       (Interpolator_interpolate garbage)"

section \<open>Basic facts\<close>

lemma bindE_Inl [simp]: "bindE (Inl e) f = Inl e"
  by (simp add: bindE_def)

lemma bindE_Inr [simp]: "bindE (Inr x) f = f x"
  by (simp add: bindE_def)

lemma bindE_eq_Inr: "bindE m f = Inr y \<longleftrightarrow> (\<exists>x. m = Inr x \<and> f x = Inr y)"
  by (cases m) simp_all

lemma bindE_eq_Inl: "bindE m f = Inl e \<longleftrightarrow> m = Inl e \<or> (\<exists>x. m = Inr x \<and> f x = Inl e)"
  by (cases m) simp_all

lemma unat_u32: "n < 2 ^ 32 \<Longrightarrow> unat (u32 n) = n"
  by (simp add: u32_def unat_of_nat)

lemma unat_u32_le: "unat (u32 n) \<le> n"
  by (simp add: u32_def unat_of_nat)

lemma mapE_Inr:
  "(\<And>x. x \<in> set xs \<Longrightarrow> f x = Inr (g x)) \<Longrightarrow> mapE f xs = Inr (map g xs)"
  by (induction xs) simp_all

lemma rd_in_range [simp]: "i < length xs \<Longrightarrow> rd xs i = Inr (xs ! i)"
  by (simp add: rd_def)

lemma copy_column_wf:
  assumes "wf_view2 fz_src" and "unat k < shape1 fz_src"
  shows "copy_column fz_src k = Inr (map (\<lambda>r. r ! unat k) (rows fz_src))"
proof -
  have len: "unat (u32 (shape0 fz_src)) = length (rows fz_src)"
    using assms(1) by (simp add: wf_view2_def unat_u32 shape0_def)
  have cell: "rd2 fz_src i (unat k) = Inr (rows fz_src ! i ! unat k)"
    if "i \<in> set [0..<length (rows fz_src)]" for i
  proof -
    from that have i: "i < length (rows fz_src)" by simp
    then have "length (rows fz_src ! i) = shape1 fz_src"
      using assms(1) by (simp add: wf_view2_def list_all_length)
    with i assms(2) show ?thesis by (simp add: rd2_def)
  qed
  have "copy_column fz_src k
      = Inr (map (\<lambda>i. rows fz_src ! i ! unat k) [0..<length (rows fz_src)])"
    unfolding copy_column_def row_range_def len by (rule mapE_Inr) (rule cell)
  also have "map (\<lambda>i. rows fz_src ! i ! unat k) [0..<length (rows fz_src)]
      = map (\<lambda>r. r ! unat k) (rows fz_src)"
    by (simp add: map_equality_iff)
  finally show ?thesis .
qed

lemma unat_pred_less: "(index :: uint) \<noteq> 0 \<Longrightarrow> unat (index - 1) < unat index"
  by (rule measure_unat)

section \<open>Nearest-neighbour ties\<close>

text \<open>
  C1 (as the code has it). \<open>nearest_interp\<close> tests
  \<open>fabs(level - z_src[index - 1]) <= fabs(level - z_src[index])\<close>, so for a bracket
  index \<open>i \<ge> 1\<close> and a target at the same distance from \<open>z_src[i - 1]\<close> and \<open>z_src[i]\<close>
  the lower index wins: every row of the output is a copy of \<open>fz_src[:, i - 1]\<close>.
\<close>

theorem nearest_interp_tie:
  assumes "index \<noteq> 0" and "unat index < length z_src"
    and "dfabs (dsub level (z_src ! unat (index - 1))) = dfabs (dsub level (z_src ! unat index))"
    and "\<not> isnan (dfabs (dsub level (z_src ! unat index)))"
    and "wf_view2 fz_src" and "shape1 fz_src = length z_src"
  shows "nearest_interp index z_src fz_src level
           = Inr (map (\<lambda>r. r ! unat (index - 1)) (rows fz_src))"
proof -
  have lo: "unat (index - 1) < length z_src"
    using unat_pred_less [OF assms(1)] assms(2) by simp
  have "dle (dfabs (dsub level (z_src ! unat (index - 1))))
            (dfabs (dsub level (z_src ! unat index)))"
    using assms(3,4) by (simp add: dle_def deq_def)
  then have "nearest_interp index z_src fz_src level = copy_column fz_src (index - 1)"
    using assms(1,2) lo by (simp add: nearest_interp_def)
  also have "\<dots> = Inr (map (\<lambda>r. r ! unat (index - 1)) (rows fz_src))"
    using assms(5,6) lo by (simp add: copy_column_wf)
  finally show ?thesis .
qed

theorem nearest_interp_tie_witness:
  "dfabs (dsub (Num 1) ([Num 0, Num 2] ! unat (1 - 1 :: uint)))
     = dfabs (dsub (Num 1) ([Num 0, Num 2] ! unat (1 :: uint)))
   \<and> nearest_interp 1 [Num 0, Num 2] \<lparr>rows = [[Num 10, Num 20]], shape1 = 2\<rparr> (Num 1)
       = Inr [Num 10]"
  using nearest_interp_tie
    [of 1 "[Num 0, Num 2]" "Num 1" "\<lparr>rows = [[Num 10, Num 20]], shape1 = 2\<rparr>"]
  by (simp add: wf_view2_def shape0_def dsub_def)

text \<open>
  The claim as the specification words it (the tie goes to \<open>i\<close>) fails: at
  \<open>z_src = [0, 2]\<close>, \<open>fz_src = [[10, 20]]\<close>, \<open>i = 1\<close> and the target \<open>1\<close> the output is
  \<open>fz_src[:, 0]\<close>.
\<close>

theorem nearest_interp_tie_counterexample:
  "dfabs (dsub (Num 1) ([Num 0, Num 2] ! 0)) = dfabs (dsub (Num 1) ([Num 0, Num 2] ! 1))
   \<and> nearest_interp 1 [Num 0, Num 2] \<lparr>rows = [[Num 10, Num 20]], shape1 = 2\<rparr> (Num 1)
       = Inr [Num 10]
   \<and> nearest_interp 1 [Num 0, Num 2] \<lparr>rows = [[Num 10, Num 20]], shape1 = 2\<rparr> (Num 1)
       \<noteq> Inr [Num 20]"
  by code_simp

section \<open>The order of the targets\<close>

text \<open>
  C3. With \<open>z_src = [2, 4, 6]\<close>, \<open>fz_src = [[2, 4, 6]]\<close>, a rising coordinate, linear
  interpolation and NaN extrapolation, the targets \<open>[3, 5]\<close> give \<open>[3, 5]\<close> and the
  targets \<open>[5, 3]\<close> give \<open>[5, NaN]\<close>, whatever the output buffer held before. After the
  target \<open>5\<close> the lower edge of the window is \<open>5\<close> and the cursor stands at index 2; the
  search for \<open>3\<close> then runs off the end of the source (cursor 3, flag \<open>+1\<close>, upper edge
  \<open>+inf\<close>) and the marcher calls the extrapolation kernel with direction \<open>+1\<close>.
\<close>

theorem target_order_scenario:
  "gridwise_interpolation [Num 3, Num 5] [Num 2, Num 4, Num 6]
       \<lparr>rows = [[Num 2, Num 4, Num 6]], shape1 = 3\<rparr> True linear_interp nan_data_extrap
       [[a, b]]
     = Inr [[Num 3, Num 5]]
   \<and> gridwise_interpolation [Num 5, Num 3] [Num 2, Num 4, Num 6]
       \<lparr>rows = [[Num 2, Num 4, Num 6]], shape1 = 3\<rparr> True linear_interp nan_data_extrap
       [[a, b]]
     = Inr [[Num 5, NaN]]
   \<and> target_step linear_interp nan_data_extrap [Num 2, Num 4, Num 6]
       \<lparr>rows = [[Num 2, Num 4, Num 6]], shape1 = 3\<rparr> (dneg (window_start True))
       (initial_state True (Num 2)) (Num 5)
     = Inr (\<lparr>z_before = Num 5, z_after = Num 6, i_src = 2, extrapolating = 0\<rparr>, [Num 5])
   \<and> locate [Num 2, Num 4, Num 6] (dneg (window_start True))
       \<lparr>z_before = Num 5, z_after = Num 6, i_src = 2, extrapolating = 0\<rparr> (Num 3)
     = Inr (\<lparr>z_before = Num 5, z_after = PosInf, i_src = 3, extrapolating = 1\<rparr>, 1)
   \<and> dispatch \<lparr>z_before = Num 5, z_after = PosInf, i_src = 3, extrapolating = 1\<rparr> 1
     = Extrapolate 1"
  by code_simp

section \<open>What the search keeps true\<close>

lemma word_wrap_below: "\<not> (x :: uint) < n \<Longrightarrow> x + 1 < n \<Longrightarrow> x + 1 = 0"
  by unat_arith

lemma cursor_in_range: "(i :: uint) < u32 (length z_src) \<Longrightarrow> unat i < length z_src"
  using unat_u32_le [of "length z_src"] by (simp add: word_less_nat_alt)

lemma rd_Inr_iff: "rd xs i = Inr x \<longleftrightarrow> i < length xs \<and> x = xs ! i"
  by (auto simp: rd_def)

lemma advance_stop:
  "sb \<noteq> sa \<Longrightarrow> advance z_src z_last z_current sb st sa = Inr (st, sa)"
  by (subst advance.simps) simp

lemma advance_end:
  "sb = sa \<Longrightarrow> \<not> i_src st + 1 < u32 (length z_src) \<Longrightarrow>
   advance z_src z_last z_current sb st sa
     = Inr (st\<lparr>i_src := i_src st + 1, extrapolating := 1, z_after := z_last\<rparr>,
            relative_sign z_last z_current)"
  by (subst advance.simps) simp

lemma advance_pull:
  "sb = sa \<Longrightarrow> i_src st + 1 < u32 (length z_src) \<Longrightarrow>
   advance z_src z_last z_current sb st sa
     = (if isnan (z_src ! unat (i_src st + 1)) then Inl InvalidSource
        else advance z_src z_last z_current sb
               (st\<lparr>i_src := i_src st + 1, extrapolating := 0,
                   z_after := z_src ! unat (i_src st + 1)\<rparr>)
               (relative_sign (z_src ! unat (i_src st + 1)) z_current))"
  by (subst advance.simps) (simp add: cursor_in_range Let_def)

lemma advance_post:
  assumes "advance z_src z_last z_current sb st sa = Inr (st', sa')"
    and "window_ok z_src z_last st"
    and "sa = relative_sign (z_after st) z_current"
    and "sb = sa \<or> distinct_bracket z_src st"
  shows "window_ok z_src z_last st' \<and> sa' = relative_sign (z_after st') z_current
       \<and> distinct_bracket z_src st' \<and> (extrapolating st' = 1 \<or> sb \<noteq> sa')
       \<and> z_before st' = z_before st
       \<and> (st' = st \<or> extrapolating st' = 0 \<or> extrapolating st' = 1)"
  using assms
proof (induction z_src z_last z_current sb st sa rule: advance.induct)
  case (1 z_src z_last z_current sb st sa)
  show ?case
  proof (cases "sb = sa")
    case False
    with "1.prems" show ?thesis
      by (auto simp: advance_stop)
  next
    case same: True
    define i where "i = i_src st + 1"
    show ?thesis
    proof (cases "i < u32 (length z_src)")
      case False
      with same "1.prems"(1)
      have st': "st' = st\<lparr>i_src := i, extrapolating := 1, z_after := z_last\<rparr>"
        and sa': "sa' = relative_sign z_last z_current"
        by (simp_all add: advance_end i_def)
      show ?thesis
        using False by (simp add: st' sa' window_ok_def distinct_bracket_def)
    next
      case inr: True
      define z where "z = z_src ! unat i"
      have rdz: "rd z_src (unat i) = Inr z"
        using cursor_in_range [OF inr] by (simp add: z_def)
      define st1 where "st1 = st\<lparr>i_src := i, extrapolating := 0, z_after := z\<rparr>"
      from "1.prems"(1) same inr rdz
      have nn: "\<not> isnan z"
        and rec: "advance z_src z_last z_current sb st1 (relative_sign z z_current) = Inr (st', sa')"
        by (auto simp: advance_pull i_def st1_def z_def split: if_splits)
      have ok1: "window_ok z_src z_last st1"
        using inr nn by (simp add: window_ok_def st1_def z_def)
      have sg1: "relative_sign z z_current = relative_sign (z_after st1) z_current"
        by (simp add: st1_def)
      have d1: "sb = relative_sign z z_current \<or> distinct_bracket z_src st1"
      proof (cases "sb = relative_sign z z_current")
        case True
        then show ?thesis by simp
      next
        case differ: False
        have "distinct_bracket z_src st1"
        proof (cases "i = 0")
          case True
          then show ?thesis by (simp add: distinct_bracket_def st1_def)
        next
          case False
          have in_range: "i_src st < u32 (length z_src)"
            using word_wrap_below [of "i_src st" "u32 (length z_src)"] inr False
            by (auto simp: i_def)
          have "z_after st = z_src ! unat (i_src st)"
            using "1.prems"(2) in_range cursor_in_range [OF in_range]
            by (auto simp: window_ok_def rd_Inr_iff)
          with same "1.prems"(3) differ
          have "z_src ! unat (i_src st) \<noteq> z"
            by auto
          then show ?thesis
            by (simp add: distinct_bracket_def st1_def z_def i_def)
        qed
        then show ?thesis by simp
      qed
      have IH: "window_ok z_src z_last st' \<and> sa' = relative_sign (z_after st') z_current
       \<and> distinct_bracket z_src st' \<and> (extrapolating st' = 1 \<or> sb \<noteq> sa')
       \<and> z_before st' = z_before st1
       \<and> (st' = st1 \<or> extrapolating st' = 0 \<or> extrapolating st' = 1)"
        using "1.IH" [OF same i_def inr rdz nn rec [unfolded st1_def] ok1 [unfolded st1_def] _ d1 [unfolded st1_def]]
        by (auto simp: st1_def)
      then show ?thesis
        by (auto simp: st1_def)
    qed
  qed
qed


lemma reachable_inv:
  assumes "reachable z_src increasing st"
  shows "window_ok z_src (dneg (window_start increasing)) st \<and> distinct_bracket z_src st
         \<and> \<not> isnan (z_before st)"
  using assms
proof (induction rule: reachable.induct)
  case (start z0)
  then show ?case
    by (simp add: window_ok_def distinct_bracket_def initial_state_def window_start_def
        INFINITY_def)
next
  case (next_target st z_current st' sign_after)
  from next_target.hyps(3)
  have adv: "advance z_src (dneg (window_start increasing)) z_current
               (relative_sign (z_before st) z_current) st
               (relative_sign (z_after st) z_current) = Inr (st', sign_after)"
    by (simp add: locate_def)
  have "window_ok z_src (dneg (window_start increasing)) st' \<and> distinct_bracket z_src st'"
    using advance_post [OF adv] next_target.IH by simp
  with next_target.hyps(2) show ?case
    by (simp add: window_ok_def distinct_bracket_def)
qed

text \<open>
  The loop over the targets only passes through such states: it starts in the initial
  state and goes on with the state that the loop body returns.
\<close>

lemma target_step_reachable:
  assumes "reachable z_src increasing st"
    and "target_step ik ek z_src fz_src (dneg (window_start increasing)) st z_current
           = Inr (st', col)"
  shows "reachable z_src increasing st'"
proof -
  from assms(2) have nn: "\<not> isnan z_current"
    by (auto simp: target_step_def split: if_splits)
  with assms(2) obtain st1 sign_after where
    "locate z_src (dneg (window_start increasing)) st z_current = Inr (st1, sign_after)"
    and "st' = st1\<lparr>z_before := z_current\<rparr>"
    by (auto simp: target_step_def bindE_eq_Inr)
  with assms(1) nn show ?thesis
    by (auto intro: reachable.next_target)
qed

lemma relative_sign_zero:
  "\<not> isnan t \<Longrightarrow> relative_sign z t = 0 \<longleftrightarrow> deq z t \<or> isnan z"
  by (cases z; cases t) (auto simp: relative_sign_def dsub_def dgt_def deq_def)

lemma window_last_not_nan: "\<not> isnan (dneg (window_start increasing))"
  by (simp add: window_start_def INFINITY_def)

section \<open>Which kernel is called\<close>

text \<open>
  For a target that the marcher processes (a state it can be in, a target that is not
  NaN, a search that raises nothing), the loop body calls the interpolation kernel at the
  cursor exactly when the flag is \<open>0\<close> or \<open>sign_after\<close> is \<open>0\<close>, and otherwise the
  extrapolation kernel with the flag as direction. The sign is zero when the target
  equals the upper edge \<open>z_after\<close>, and also when \<open>z_after\<close> is NaN, which only the
  first sample under an unmoved window can be. With the flag \<open>0\<close> the cursor is inside the
  source, the upper edge is the sample under it and the two signs differ (a crossing).
  With a flag other than \<open>0\<close>: \<open>-1\<close> means the search left the state as it was,
  cursor at index 0; \<open>+1\<close> means the cursor is past the end and the upper edge is
  \<open>z_last\<close>.
\<close>

lemma dispatch_rule:
  assumes "reachable z_src increasing st" and "\<not> isnan z_current"
    and "locate z_src (dneg (window_start increasing)) st z_current = Inr (st', sign_after)"
  shows "target_step ik ek z_src fz_src (dneg (window_start increasing)) st z_current
           = bindE (if extrapolating st' = 0 \<or> sign_after = 0
                    then ik (i_src st') z_src fz_src z_current
                    else ek (extrapolating st') z_src fz_src z_current)
               (\<lambda>col. Inr (st'\<lparr>z_before := z_current\<rparr>, col))
         \<and> (sign_after = 0 \<longleftrightarrow> deq (z_after st') z_current \<or> isnan (z_after st'))
         \<and> (isnan (z_after st') \<longrightarrow> extrapolating st' = - 1)
         \<and> (extrapolating st' = 0 \<longrightarrow>
               i_src st' < u32 (length z_src) \<and> z_after st' = z_src ! unat (i_src st')
               \<and> relative_sign (z_before st) z_current \<noteq> sign_after)
         \<and> (extrapolating st' \<noteq> 0 \<longrightarrow>
               extrapolating st' = - 1 \<and> st' = st \<and> i_src st' = 0
                 \<and> rd z_src 0 = Inr (z_after st')
               \<or> extrapolating st' = 1 \<and> \<not> i_src st' < u32 (length z_src)
                 \<and> z_after st' = dneg (window_start increasing))"
proof -
  let ?z_last = "dneg (window_start increasing)"
  from assms(3)
  have adv: "advance z_src ?z_last z_current (relative_sign (z_before st) z_current) st
               (relative_sign (z_after st) z_current) = Inr (st', sign_after)"
    by (simp add: locate_def)
  have inv: "window_ok z_src ?z_last st" "distinct_bracket z_src st"
    using reachable_inv [OF assms(1)] by simp_all
  have post: "window_ok z_src ?z_last st'"
    "sign_after = relative_sign (z_after st') z_current"
    "extrapolating st' = 1 \<or> relative_sign (z_before st) z_current \<noteq> sign_after"
    "st' = st \<or> extrapolating st' = 0 \<or> extrapolating st' = 1"
    using advance_post [OF adv inv(1)] inv(2) by auto
  have step: "target_step ik ek z_src fz_src ?z_last st z_current
           = bindE (if extrapolating st' = 0 \<or> sign_after = 0
                    then ik (i_src st') z_src fz_src z_current
                    else ek (extrapolating st') z_src fz_src z_current)
               (\<lambda>col. Inr (st'\<lparr>z_before := z_current\<rparr>, col))"
    using assms(2,3) by (simp add: target_step_def dispatch_def)
  have zero: "sign_after = 0 \<longleftrightarrow> deq (z_after st') z_current \<or> isnan (z_after st')"
    using post(2) relative_sign_zero [OF assms(2)] by simp
  have nan: "isnan (z_after st') \<longrightarrow> extrapolating st' = - 1"
    using post(1) window_last_not_nan [of increasing] by (auto simp: window_ok_def)
  have flag0: "extrapolating st' = 0 \<longrightarrow>
               i_src st' < u32 (length z_src) \<and> z_after st' = z_src ! unat (i_src st')
               \<and> relative_sign (z_before st) z_current \<noteq> sign_after"
    using post(1,3) by (auto simp: window_ok_def)
  have flag: "extrapolating st' \<noteq> 0 \<longrightarrow>
               extrapolating st' = - 1 \<and> st' = st \<and> i_src st' = 0
                 \<and> rd z_src 0 = Inr (z_after st')
               \<or> extrapolating st' = 1 \<and> \<not> i_src st' < u32 (length z_src)
                 \<and> z_after st' = ?z_last"
    using post(1,4) by (auto simp: window_ok_def)
  from step zero nan flag0 flag show ?thesis
    by blast
qed

lemma dispatch_rule_example:
  "reachable [Num 2, Num 4, Num 6] True (initial_state True (Num 2))
   \<and> locate [Num 2, Num 4, Num 6] (dneg (window_start True)) (initial_state True (Num 2)) (Num 5)
       = Inr (\<lparr>z_before = NegInf, z_after = Num 6, i_src = 2, extrapolating = 0\<rparr>, 1)
   \<and> target_step testable_indez_interp testable_direction_extrap [Num 2, Num 4, Num 6]
         \<lparr>rows = [[Num 2, Num 4, Num 6]], shape1 = 3\<rparr> (dneg (window_start True))
         (initial_state True (Num 2)) (Num 5)
       = Inr (\<lparr>z_before = Num 5, z_after = Num 6, i_src = 2, extrapolating = 0\<rparr>, [Num 2])"
proof -
  let ?z = "[Num 2, Num 4, Num 6]"
  let ?S = "\<lparr>z_before = NegInf, z_after = Num 6, i_src = 2, extrapolating = 0\<rparr>"
  have r: "reachable ?z True (initial_state True (Num 2))"
    by (rule reachable.start) simp
  have n: "\<not> isnan (Num 5)"
    by simp
  have l: "locate ?z (dneg (window_start True)) (initial_state True (Num 2)) (Num 5) = Inr (?S, 1)"
    by code_simp
  have e: "bindE (if extrapolating ?S = 0 \<or> (1 :: int) = 0
                  then testable_indez_interp (i_src ?S) ?z
                         \<lparr>rows = [[Num 2, Num 4, Num 6]], shape1 = 3\<rparr> (Num 5)
                  else testable_direction_extrap (extrapolating ?S) ?z
                         \<lparr>rows = [[Num 2, Num 4, Num 6]], shape1 = 3\<rparr> (Num 5))
             (\<lambda>col. Inr (?S\<lparr>z_before := Num 5\<rparr>, col))
           = Inr (\<lparr>z_before = Num 5, z_after = Num 6, i_src = 2, extrapolating = 0\<rparr>, [Num 2])"
    by code_simp
  from dispatch_rule [OF r n l, of testable_indez_interp testable_direction_extrap
      "\<lparr>rows = [[Num 2, Num 4, Num 6]], shape1 = 3\<rparr>"]
  have "target_step testable_indez_interp testable_direction_extrap ?z
         \<lparr>rows = [[Num 2, Num 4, Num 6]], shape1 = 3\<rparr> (dneg (window_start True))
         (initial_state True (Num 2)) (Num 5)
       = Inr (\<lparr>z_before = Num 5, z_after = Num 6, i_src = 2, extrapolating = 0\<rparr>, [Num 2])"
    unfolding e by (rule conjunct1)
  with r l show ?thesis
    by simp
qed

lemma unat_minus_one_uint: "\<not> unat (- 1 :: uint) < Suc (Suc (Suc 0))"
proof -
  have "\<not> (- 1 :: uint) < 3"
    by simp
  then have "\<not> unat (- 1 :: uint) < unat (3 :: uint)"
    unfolding word_less_nat_alt .
  moreover have "unat (3 :: uint) = 3"
    by simp
  ultimately have "\<not> unat (- 1 :: uint) < 3"
    by simp
  then show ?thesis
    unfolding numeral_3_eq_3 .
qed

text \<open>
  C8. A source column whose first value is NaN and whose other values are not:
  \<open>z_src = [NaN, 1, 2]\<close>, \<open>fz_src = [[10, 20, 30]]\<close>, rising, and the one target
  \<open>1.5\<close>. The search leaves the window where it was (cursor 0, flag \<open>-1\<close>, upper edge
  NaN) with \<open>sign_after = 0\<close>: no comparison with the NaN difference holds, although the
  target is not equal to \<open>z_after\<close>. No crossing was found and the target does not lie
  on \<open>z_after\<close>, yet the marcher calls the interpolation kernel at index 0 and not the
  extrapolation kernel with direction \<open>-1\<close>: the linear kernel reads
  \<open>z_src[index - 1]\<close> with \<open>index = 0\<close>, outside the column; the two test kernels leave
  the index \<open>0\<close> in the output, where the direction kernel would have left \<open>-inf\<close>;
  the nearest kernel copies \<open>fz_src[:, 0]\<close>, where \<open>nan_data_extrap\<close> would have left
  NaN, also through \<open>interpolate\<close>. The comment on \<open>interp_kernel\<close> says that the index
  is 0 only if \<open>z_src[i] == current_level\<close>.
\<close>

theorem leading_nan_dispatch:
  "gridwise_interpolation [Num (3 / 2)] [NaN, Num 1, Num 2]
       \<lparr>rows = [[Num 10, Num 20, Num 30]], shape1 = 3\<rparr> True
       linear_interp nan_data_extrap [[Num 7]]
     = Inl (OutOfBounds, [[Num 7]])
   \<and> locate [NaN, Num 1, Num 2] (dneg (window_start True)) (initial_state True NaN)
       (Num (3 / 2))
     = Inr (\<lparr>z_before = NegInf, z_after = NaN, i_src = 0, extrapolating = - 1\<rparr>, 0)
   \<and> \<not> deq NaN (Num (3 / 2))
   \<and> dispatch \<lparr>z_before = NegInf, z_after = NaN, i_src = 0, extrapolating = - 1\<rparr> 0
     = Interpolate 0
   \<and> gridwise_interpolation [Num (3 / 2)] [NaN, Num 1, Num 2]
       \<lparr>rows = [[Num 10, Num 20, Num 30]], shape1 = 3\<rparr> True
       testable_indez_interp testable_direction_extrap [[Num 7]]
     = Inr [[Num 0]]
   \<and> gridwise_interpolation [Num (3 / 2)] [NaN, Num 1, Num 2]
       \<lparr>rows = [[Num 10, Num 20, Num 30]], shape1 = 3\<rparr> True
       nearest_interp nan_data_extrap [[Num 7]]
     = Inr [[Num 10]]
   \<and> testable_direction_extrap (- 1) [NaN, Num 1, Num 2]
       \<lparr>rows = [[Num 10, Num 20, Num 30]], shape1 = 3\<rparr> (Num (3 / 2))
     = Inr [NegInf]
   \<and> nan_data_extrap (- 1) [NaN, Num 1, Num 2]
       \<lparr>rows = [[Num 10, Num 20, Num 30]], shape1 = 3\<rparr> (Num (3 / 2))
     = Inr [NaN]
   \<and> interpolate (np_issubdtype_int False) (\<lambda>k. Num 7) \<lparr>shape = [1], data = [Num (3 / 2)]\<rparr>
       \<lparr>shape = [3], data = [NaN, Num 1, Num 2]\<rparr>
       \<lparr>shape = [3], data = [Num 10, Num 20, Num 30]\<rparr> F8 (- 1) (Some True)
       INTERPOLATE_NEAREST EXTRAPOLATE_NAN
     = Inr \<lparr>res_shape = [1], res_dtype = F8, res_values = [Num 10]\<rparr>"
proof -
  have linear:
    "gridwise_interpolation [Num (3 / 2)] [NaN, Num 1, Num 2]
         \<lparr>rows = [[Num 10, Num 20, Num 30]], shape1 = 3\<rparr> True
         linear_interp nan_data_extrap [[Num 7]]
       = Inl (OutOfBounds, [[Num 7]])"
    by (simp add: gridwise_interpolation_def source_all_nans_def u32_def rd_def
        initial_state_def window_start_def INFINITY_def target_step_def locate_def
        relative_sign_def dsub_def dgt_def advance_stop dispatch_def linear_interp_def
        deq_def bindE_def unat_minus_one_uint)
  have others:
    "locate [NaN, Num 1, Num 2] (dneg (window_start True)) (initial_state True NaN)
         (Num (3 / 2))
       = Inr (\<lparr>z_before = NegInf, z_after = NaN, i_src = 0, extrapolating = - 1\<rparr>, 0)
     \<and> \<not> deq NaN (Num (3 / 2))
     \<and> dispatch \<lparr>z_before = NegInf, z_after = NaN, i_src = 0, extrapolating = - 1\<rparr> 0
       = Interpolate 0
     \<and> gridwise_interpolation [Num (3 / 2)] [NaN, Num 1, Num 2]
         \<lparr>rows = [[Num 10, Num 20, Num 30]], shape1 = 3\<rparr> True
         testable_indez_interp testable_direction_extrap [[Num 7]]
       = Inr [[Num 0]]
     \<and> gridwise_interpolation [Num (3 / 2)] [NaN, Num 1, Num 2]
         \<lparr>rows = [[Num 10, Num 20, Num 30]], shape1 = 3\<rparr> True
         nearest_interp nan_data_extrap [[Num 7]]
       = Inr [[Num 10]]
     \<and> testable_direction_extrap (- 1) [NaN, Num 1, Num 2]
         \<lparr>rows = [[Num 10, Num 20, Num 30]], shape1 = 3\<rparr> (Num (3 / 2))
       = Inr [NegInf]
     \<and> nan_data_extrap (- 1) [NaN, Num 1, Num 2]
         \<lparr>rows = [[Num 10, Num 20, Num 30]], shape1 = 3\<rparr> (Num (3 / 2))
       = Inr [NaN]
     \<and> interpolate (np_issubdtype_int False) (\<lambda>k. Num 7)
         \<lparr>shape = [1], data = [Num (3 / 2)]\<rparr>
         \<lparr>shape = [3], data = [NaN, Num 1, Num 2]\<rparr>
         \<lparr>shape = [3], data = [Num 10, Num 20, Num 30]\<rparr> F8 (- 1) (Some True)
         INTERPOLATE_NEAREST EXTRAPOLATE_NAN
       = Inr \<lparr>res_shape = [1], res_dtype = F8, res_values = [Num 10]\<rparr>"
    by code_simp
  from linear others show ?thesis
    by (rule conjI)
qed

section \<open>Source columns that are all NaN\<close>

lemma foldE_append: "foldE f (xs @ ys) s = bindE (foldE f xs s) (foldE f ys)"
  by (induction xs arbitrary: s) (simp_all add: bindE_def split: sum.splits)

lemma fill_row:
  assumes "i < length b" and "n \<le> length (b ! i)"
  shows "foldE (\<lambda>j b. wr2 b i j v) [0..<n] b = Inr (b[i := replicate n v @ drop n (b ! i)])"
  using assms(2)
proof (induction n)
  case 0
  then show ?case by simp
next
  case (Suc n)
  let ?r = "b ! i"
  let ?b1 = "b[i := replicate n v @ drop n ?r]"
  have IH: "foldE (\<lambda>j b. wr2 b i j v) [0..<n] b = Inr ?b1"
    using Suc by simp
  have n: "n < length ?r"
    using Suc.prems by simp
  have "(replicate n v @ drop n ?r)[n := v] = replicate n v @ (drop n ?r)[0 := v]"
    by (simp add: list_update_append)
  also have "(drop n ?r)[0 := v] = v # drop (Suc n) ?r"
    using n by (simp add: Cons_nth_drop_Suc [symmetric])
  also have "replicate n v @ v # drop (Suc n) ?r = replicate (Suc n) v @ drop (Suc n) ?r"
    by (simp add: replicate_append_same)
  finally have upd: "(replicate n v @ drop n ?r)[n := v] = replicate (Suc n) v @ drop (Suc n) ?r" .
  have "wr2 ?b1 i n v = Inr (b[i := replicate (Suc n) v @ drop (Suc n) ?r])"
    using assms(1) n by (simp add: wr2_def upd)
  then show ?case
    by (simp add: foldE_append IH)
qed

lemma fill_rows:
  assumes "m \<le> length b" and "\<forall>i<m. n \<le> length (b ! i)"
  shows "foldE (\<lambda>i. foldE (\<lambda>j b. wr2 b i j v) [0..<n]) [0..<m] b
           = Inr (map (\<lambda>r. replicate n v @ drop n r) (take m b) @ drop m b)"
  using assms
proof (induction m)
  case 0
  then show ?case by simp
next
  case (Suc m)
  let ?g = "\<lambda>r. replicate n v @ drop n r"
  let ?b1 = "map ?g (take m b) @ drop m b"
  have IH: "foldE (\<lambda>i. foldE (\<lambda>j b. wr2 b i j v) [0..<n]) [0..<m] b = Inr ?b1"
    using Suc by simp
  have m: "m < length b"
    using Suc.prems by simp
  have at: "?b1 ! m = b ! m"
    using m by (simp add: nth_append)
  have "foldE (\<lambda>j b. wr2 b m j v) [0..<n] ?b1 = Inr (?b1[m := ?g (?b1 ! m)])"
    using m Suc.prems(2) by (intro fill_row) (simp_all add: at)
  also have "?b1[m := ?g (?b1 ! m)] = map ?g (take m b) @ (drop m b)[0 := ?g (b ! m)]"
    using m by (simp add: list_update_append at)
  also have "(drop m b)[0 := ?g (b ! m)] = ?g (b ! m) # drop (Suc m) b"
    using m by (simp add: Cons_nth_drop_Suc [symmetric])
  also have "map ?g (take m b) @ ?g (b ! m) # drop (Suc m) b
             = map ?g (take (Suc m) b) @ drop (Suc m) b"
    using m by (simp add: take_Suc_conv_app_nth)
  finally show ?case
    by (simp add: foldE_append IH)
qed

lemma fill_nan_shape:
  assumes "length fz_target < 2 ^ 32"
    and "list_all (\<lambda>r. length r = n) fz_target"
  shows "fill_nan fz_target n = Inr (replicate (length fz_target) (replicate n NAN))"
proof -
  have rows: "\<forall>i<length fz_target. length (fz_target ! i) = n"
    using assms(2) by (simp add: list_all_length)
  have "fill_nan fz_target n
          = Inr (map (\<lambda>r. replicate n NAN @ drop n r) fz_target)"
    using rows by (simp add: fill_nan_def unat_u32 [OF assms(1)] fill_rows)
  also have "map (\<lambda>r. replicate n NAN @ drop n r) fz_target
          = replicate (length fz_target) (replicate n NAN)"
    using rows by (auto simp: list_eq_iff_nth_eq)
  finally show ?thesis .
qed

lemma scan_all_nans_iff: "scan_all_nans zs = list_all isnan zs"
  by (induction zs) simp_all

lemma u32_nonzero: "0 < n \<Longrightarrow> n < 2 ^ 32 \<Longrightarrow> u32 n \<noteq> 0"
  using unat_u32 [of n] by auto

text \<open>
  C6. For a source column that has values and whose values are all NaN, and a target
  sequence that is not empty, the marcher returns without error and leaves NaN in every
  slot of the output (all rows, all targets), whatever \<open>fz_src\<close>, the direction and the
  kernels are. The extents are those the driver passes: they fit an \<open>unsigned int\<close>, and
  every row of the output has one slot per target.
\<close>

theorem all_nan_source:
  assumes "z_src \<noteq> []" and "list_all isnan z_src"
    and "z_target \<noteq> []" and "length z_target < 2 ^ 32"
    and "length fz_target < 2 ^ 32"
    and "list_all (\<lambda>r. length r = length z_target) fz_target"
  shows "gridwise_interpolation z_target z_src fz_src increasing ik ek fz_target
           = Inr (replicate (length fz_target) (replicate (length z_target) NAN))"
proof -
  have "list_all isnan (take (unat (u32 (length z_src))) z_src)"
    using assms(2) by (auto simp: list_all_iff dest: in_set_takeD)
  moreover have "isnan (z_src ! 0)"
    using assms(1,2) by (simp add: list_all_length)
  moreover have "u32 (length z_target) \<noteq> 0"
    using assms(3,4) by (simp add: u32_nonzero)
  ultimately have "source_all_nans z_target z_src = Inr True"
    using assms(1) by (simp add: source_all_nans_def scan_all_nans_iff)
  then show ?thesis
    using assms(4-6) by (simp add: gridwise_interpolation_def unat_u32 fill_nan_shape)
qed

theorem all_nan_source_witness:
  "list_all isnan [NaN, NaN]
   \<and> gridwise_interpolation [Num 1, Num 2] [NaN, NaN]
        \<lparr>rows = [[Num 10, Num 20]], shape1 = 2\<rparr> True linear_interp linear_extrap
        [[Num 7, Num 8]]
      = Inr [[NaN, NaN]]"
  using all_nan_source [of "[NaN, NaN]" "[Num 1, Num 2]" "[[Num 7, Num 8]]"
      "\<lparr>rows = [[Num 10, Num 20]], shape1 = 2\<rparr>" True linear_interp linear_extrap]
  by (simp add: NAN_def)

section \<open>The columns the march writes\<close>

text \<open>
  A successful store writes the column it is given and nothing else; the loop over the
  targets never touches a column again once it has moved past it; the loop over
  \<open>pre @ rest\<close> is the loop over \<open>pre\<close> followed by the loop over \<open>rest\<close>, from the
  state and the buffer that the first one leaves.
\<close>

lemma wr2_Inr:
  "wr2 b i j v = Inr b' \<longleftrightarrow> i < length b \<and> j < length (b ! i) \<and> b' = b[i := (b ! i)[j := v]]"
  by (auto simp: wr2_def)

lemma foldE_snoc: "foldE f (xs @ [x]) s = bindE (foldE f xs s) (f x)"
  by (simp add: foldE_append bindE_def split: sum.splits)

lemma store_rows:
  assumes "foldE (\<lambda>i b. wr2 b i j (f i)) [0..<n] buf = Inr buf'"
  shows "length buf' = length buf \<and> n \<le> length buf
       \<and> (\<forall>r<length buf.
             length (buf' ! r) = length (buf ! r)
             \<and> (\<forall>c. c \<noteq> j \<longrightarrow> buf' ! r ! c = buf ! r ! c)
             \<and> (r < n \<longrightarrow> j < length (buf ! r) \<and> buf' ! r ! j = f r)
             \<and> (n \<le> r \<longrightarrow> buf' ! r = buf ! r))"
  using assms
proof (induction n arbitrary: buf')
  case 0
  then show ?case by simp
next
  case (Suc n)
  from Suc.prems obtain b1 where
    first: "foldE (\<lambda>i b. wr2 b i j (f i)) [0..<n] buf = Inr b1"
    and last: "wr2 b1 n j (f n) = Inr buf'"
    by (auto simp: foldE_snoc bindE_eq_Inr)
  note IH = Suc.IH [OF first]
  from last have n: "n < length b1" and j: "j < length (b1 ! n)"
    and buf': "buf' = b1[n := (b1 ! n)[j := f n]]"
    by (simp_all add: wr2_Inr)
  show ?case
  proof (intro conjI allI impI)
    show "length buf' = length buf"
      using IH buf' by simp
    show "Suc n \<le> length buf"
      using IH n by simp
  next
    fix r
    assume r: "r < length buf"
    show "length (buf' ! r) = length (buf ! r)"
      using IH r buf' by (cases "r = n") simp_all
  next
    fix r c
    assume r: "r < length buf" and c: "c \<noteq> j"
    show "buf' ! r ! c = buf ! r ! c"
      using IH r c buf' by (cases "r = n") simp_all
  next
    fix r
    assume r: "r < length buf" and "r < Suc n"
    then show "j < length (buf ! r)"
      using IH n j by (cases "r = n") simp_all
  next
    fix r
    assume r: "r < length buf" and "r < Suc n"
    then show "buf' ! r ! j = f r"
      using IH buf' n j by (cases "r = n") simp_all
  next
    fix r
    assume r: "r < length buf" and "Suc n \<le> r"
    then show "buf' ! r = buf ! r"
      using IH buf' by simp
  qed
qed

lemma store_column_Inr:
  assumes "store_column buf j col = Inr buf'"
  shows "length buf' = length buf \<and> length col \<le> length buf
       \<and> (\<forall>r<length buf.
             length (buf' ! r) = length (buf ! r)
             \<and> (\<forall>c. c \<noteq> j \<longrightarrow> buf' ! r ! c = buf ! r ! c)
             \<and> (r < length col \<longrightarrow> j < length (buf ! r) \<and> buf' ! r ! j = col ! r))"
  using store_rows [of j "\<lambda>i. col ! i" "length col" buf buf'] assms
  by (simp add: store_column_def)

lemma march_keeps_columns:
  assumes "march ik ek z_src fz_src z_last i ts st buf = Inr out"
  shows "length out = length buf
       \<and> (\<forall>r<length buf. length (out ! r) = length (buf ! r)
             \<and> (\<forall>c<i. out ! r ! c = buf ! r ! c))"
  using assms
proof (induction ts arbitrary: i st buf)
  case Nil
  then show ?case by simp
next
  case (Cons t ts)
  from Cons.prems obtain st' col buf1 where
    "target_step ik ek z_src fz_src z_last st t = Inr (st', col)"
    and store: "store_column buf i col = Inr buf1"
    and rest: "march ik ek z_src fz_src z_last (Suc i) ts st' buf1 = Inr out"
    by (auto split: sum.splits prod.splits)
  from Cons.IH [OF rest] store_column_Inr [OF store] show ?case
    by auto
qed

lemma march_first_column:
  assumes "march ik ek z_src fz_src z_last i (t # post) st buf = Inr out"
  shows "\<exists>st' col. target_step ik ek z_src fz_src z_last st t = Inr (st', col)
           \<and> (\<forall>r<length col.
                 r < length out \<and> i < length (out ! r) \<and> out ! r ! i = col ! r)"
proof -
  from assms obtain st' col buf1 where
    step: "target_step ik ek z_src fz_src z_last st t = Inr (st', col)"
    and store: "store_column buf i col = Inr buf1"
    and rest: "march ik ek z_src fz_src z_last (Suc i) post st' buf1 = Inr out"
    by (auto split: sum.splits prod.splits)
  from march_keeps_columns [OF rest] store_column_Inr [OF store]
  have "\<forall>r<length col. r < length out \<and> i < length (out ! r) \<and> out ! r ! i = col ! r"
    by auto
  with step show ?thesis
    by blast
qed

lemma march_split:
  assumes "march ik ek z_src fz_src z_last i (pre @ rest) st buf = Inr out"
  shows "\<exists>st1 buf1. state_after ik ek z_src fz_src z_last st pre = Inr st1
           \<and> march ik ek z_src fz_src z_last i pre st buf = Inr buf1
           \<and> march ik ek z_src fz_src z_last (i + length pre) rest st1 buf1 = Inr out"
  using assms
proof (induction pre arbitrary: i st buf)
  case Nil
  then show ?case by simp
next
  case (Cons t pre)
  from Cons.prems obtain st' col buf1 where
    step: "target_step ik ek z_src fz_src z_last st t = Inr (st', col)"
    and store: "store_column buf i col = Inr buf1"
    and rest: "march ik ek z_src fz_src z_last (Suc i) (pre @ rest) st' buf1 = Inr out"
    by (auto split: sum.splits prod.splits)
  from Cons.IH [OF rest] step store show ?case
    by auto
qed

lemma state_after_reachable:
  assumes "reachable z_src increasing st"
    and "state_after ik ek z_src fz_src (dneg (window_start increasing)) st ts = Inr st1"
  shows "reachable z_src increasing st1"
  using assms
proof (induction ts arbitrary: st)
  case Nil
  then show ?case by simp
next
  case (Cons t ts)
  from Cons.prems(2) obtain st' col where
    step: "target_step ik ek z_src fz_src (dneg (window_start increasing)) st t = Inr (st', col)"
    and rest: "state_after ik ek z_src fz_src (dneg (window_start increasing)) st' ts = Inr st1"
    by (auto split: sum.splits prod.splits)
  from target_step_reachable [OF Cons.prems(1) step] have "reachable z_src increasing st'" .
  from Cons.IH [OF this rest] show ?case .
qed

lemma source_not_all_nans:
  assumes "(k :: uint) < u32 (length z_src)" and "\<not> isnan (z_src ! unat k)"
    and "0 < length z_target" and "length z_target < 2 ^ 32"
  shows "source_all_nans z_target z_src = Inr False"
proof -
  let ?n = "unat (u32 (length z_src))"
  have k: "unat k < length z_src"
    by (rule cursor_in_range [OF assms(1)])
  have kn: "unat k < ?n"
    using assms(1) by (simp add: word_less_nat_alt)
  have "unat k < length (take ?n z_src)" and "take ?n z_src ! unat k = z_src ! unat k"
    using k kn by simp_all
  then have "\<not> list_all isnan (take ?n z_src)"
    using assms(2) by (auto simp: list_all_length)
  moreover have "0 < length z_src"
    using k by (cases z_src) simp_all
  ultimately show ?thesis
    by (simp add: source_all_nans_def scan_all_nans_iff)
qed

section \<open>Exact matches\<close>

lemma equal_sample_not_lower:
  assumes "deq level hi" and "lo \<noteq> hi"
  shows "\<not> dle (dfabs (dsub level lo)) (dfabs (dsub level hi))"
  using assms by (cases level; cases hi; cases lo) (auto simp: deq_def dle_def dsub_def)

text \<open>
  One pass of the loop body: when the search for the target ends with sign zero on the
  upper edge, the cursor \<open>k\<close> inside the source and the target equal to \<open>z_src[k]\<close>,
  the kernel returns \<open>fz_src[:, k]\<close>, under the linear and under the nearest kernel.
  (For the nearest kernel this needs \<open>z_src[k - 1] \<noteq> z_src[k]\<close>, which holds wherever
  the search stops inside the source.)
\<close>

lemma equal_sample_step:
  assumes "reachable z_src increasing st"
    and "locate z_src (dneg (window_start increasing)) st z_current = Inr (st', 0)"
    and "i_src st' < u32 (length z_src)"
    and "deq z_current (z_src ! unat (i_src st'))"
    and "wf_view2 fz_src" and "shape1 fz_src = length z_src"
    and "ik = linear_interp \<or> ik = nearest_interp"
  shows "target_step ik ek z_src fz_src (dneg (window_start increasing)) st z_current
           = Inr (st'\<lparr>z_before := z_current\<rparr>, map (\<lambda>r. r ! unat (i_src st')) (rows fz_src))"
proof -
  let ?z_last = "dneg (window_start increasing)"
  let ?k = "i_src st'"
  have nn: "\<not> isnan z_current"
    using assms(4) by (simp add: deq_def)
  from assms(2)
  have adv: "advance z_src ?z_last z_current (relative_sign (z_before st) z_current) st
               (relative_sign (z_after st) z_current) = Inr (st', 0)"
    by (simp add: locate_def)
  have inv: "window_ok z_src ?z_last st" "distinct_bracket z_src st"
    using reachable_inv [OF assms(1)] by simp_all
  have distinct: "distinct_bracket z_src st'"
    using advance_post [OF adv inv(1)] inv(2) by simp
  have k: "unat ?k < length z_src"
    by (rule cursor_in_range [OF assms(3)])
  have copy: "copy_column fz_src ?k = Inr (map (\<lambda>r. r ! unat ?k) (rows fz_src))"
    using assms(5,6) k by (simp add: copy_column_wf)
  have linear: "linear_interp ?k z_src fz_src z_current = copy_column fz_src ?k"
    using k assms(4) by (simp add: linear_interp_def)
  have nearest: "nearest_interp ?k z_src fz_src z_current = copy_column fz_src ?k"
  proof (cases "?k = 0")
    case True
    then show ?thesis by (simp add: nearest_interp_def)
  next
    case False
    have lo: "unat (?k - 1) < length z_src"
      using unat_pred_less [OF False] k by simp
    have "z_src ! unat (?k - 1) \<noteq> z_src ! unat ?k"
      using distinct False assms(3) by (simp add: distinct_bracket_def)
    then have "\<not> dle (dfabs (dsub z_current (z_src ! unat (?k - 1))))
                     (dfabs (dsub z_current (z_src ! unat ?k)))"
      by (rule equal_sample_not_lower [OF assms(4)])
    with False lo k show ?thesis
      by (simp add: nearest_interp_def)
  qed
  have "ik ?k z_src fz_src z_current = Inr (map (\<lambda>r. r ! unat ?k) (rows fz_src))"
    using assms(7) linear nearest copy by auto
  with nn assms(2) show ?thesis
    by (simp add: target_step_def dispatch_def)
qed

text \<open>
  C5. In a call of the marcher that returns, take a target, at position \<open>length pre\<close> of
  the target sequence, that is exactly equal to a source value that the march brackets:
  from the state the loop is in after the targets before it, the search ends with sign
  zero on the upper edge and the cursor \<open>k\<close> inside the source, and the target is equal to
  \<open>z_src[k]\<close>. Then the column of that target in the output holds \<open>fz_src[:, k]\<close>:
  \<open>fz_target[r, length pre] = fz_src[r, k]\<close> for every row \<open>r\<close>, under the linear and
  under the nearest kernel, whatever the extrapolation kernel and the other targets.
\<close>

theorem exact_match:
  assumes "gridwise_interpolation (pre @ t # post) z_src fz_src increasing ik ek fz_target
             = Inr out"
    and "length (pre @ t # post) < 2 ^ 32"
    and "state_after ik ek z_src fz_src (dneg (window_start increasing))
           (initial_state increasing (z_src ! 0)) pre = Inr st"
    and "locate z_src (dneg (window_start increasing)) st t = Inr (st', 0)"
    and "i_src st' < u32 (length z_src)"
    and "deq t (z_src ! unat (i_src st'))"
    and "wf_view2 fz_src" and "shape1 fz_src = length z_src"
    and "ik = linear_interp \<or> ik = nearest_interp"
  shows "\<forall>r<length (rows fz_src).
           r < length out \<and> length pre < length (out ! r)
           \<and> out ! r ! length pre = rows fz_src ! r ! unat (i_src st')"
proof -
  let ?z_last = "dneg (window_start increasing)"
  let ?ts = "pre @ t # post"
  let ?k = "i_src st'"
  let ?st0 = "initial_state increasing (z_src ! 0)"
  have k: "unat ?k < length z_src"
    by (rule cursor_in_range [OF assms(5)])
  have nn: "\<not> isnan (z_src ! unat ?k)"
    using assms(6) by (cases t; cases "z_src ! unat ?k") (simp_all add: deq_def)
  have no_fill: "source_all_nans ?ts z_src = Inr False"
    using assms(2) by (intro source_not_all_nans [OF assms(5) nn]) simp_all
  have "0 < length z_src"
    using k by (cases z_src) simp_all
  then have z0: "rd z_src 0 = Inr (z_src ! 0)"
    by simp
  have all: "take (unat (u32 (length ?ts))) ?ts = ?ts"
    using unat_u32 [OF assms(2)] by simp
  have run: "march ik ek z_src fz_src ?z_last 0 ?ts ?st0 fz_target = Inr out"
    using assms(1) no_fill z0 all unfolding gridwise_interpolation_def Let_def by simp
  from march_split [OF run] assms(3) obtain buf1 where
    "march ik ek z_src fz_src ?z_last (length pre) (t # post) st buf1 = Inr out"
    by auto
  from march_first_column [OF this] obtain st2 col where
    step: "target_step ik ek z_src fz_src ?z_last st t = Inr (st2, col)"
    and col: "\<forall>r<length col.
                r < length out \<and> length pre < length (out ! r)
                \<and> out ! r ! length pre = col ! r"
    by blast
  have "reachable z_src increasing ?st0"
    using z0 by (rule reachable.start)
  then have "reachable z_src increasing st"
    using assms(3) by (rule state_after_reachable)
  from equal_sample_step [OF this assms(4,5,6,7,8,9), of ek] step
  have "col = map (\<lambda>r. r ! unat ?k) (rows fz_src)"
    by simp
  with col show ?thesis
    by simp
qed

theorem exact_match_witness:
  "gridwise_interpolation ([Num 3] @ Num 4 # [Num 5]) [Num 2, Num 4, Num 6]
       \<lparr>rows = [[Num 20, Num 40, Num 60], [Num 1, Num 2, Num 3]], shape1 = 3\<rparr> True
       nearest_interp nan_data_extrap [[Num 0, Num 0, Num 0], [Num 0, Num 0, Num 0]]
     = Inr [[Num 20, Num 40, Num 40], [Num 1, Num 2, Num 2]]
   \<and> gridwise_interpolation ([Num 3] @ Num 4 # [Num 5]) [Num 2, Num 4, Num 6]
       \<lparr>rows = [[Num 20, Num 40, Num 60], [Num 1, Num 2, Num 3]], shape1 = 3\<rparr> True
       linear_interp nan_data_extrap [[Num 0, Num 0, Num 0], [Num 0, Num 0, Num 0]]
     = Inr [[Num 30, Num 40, Num 50], [Num (3 / 2), Num 2, Num (5 / 2)]]
   \<and> state_after nearest_interp nan_data_extrap [Num 2, Num 4, Num 6]
       \<lparr>rows = [[Num 20, Num 40, Num 60], [Num 1, Num 2, Num 3]], shape1 = 3\<rparr>
       (dneg (window_start True)) (initial_state True ([Num 2, Num 4, Num 6] ! 0)) [Num 3]
     = Inr \<lparr>z_before = Num 3, z_after = Num 4, i_src = 1, extrapolating = 0\<rparr>
   \<and> state_after linear_interp nan_data_extrap [Num 2, Num 4, Num 6]
       \<lparr>rows = [[Num 20, Num 40, Num 60], [Num 1, Num 2, Num 3]], shape1 = 3\<rparr>
       (dneg (window_start True)) (initial_state True ([Num 2, Num 4, Num 6] ! 0)) [Num 3]
     = Inr \<lparr>z_before = Num 3, z_after = Num 4, i_src = 1, extrapolating = 0\<rparr>
   \<and> locate [Num 2, Num 4, Num 6] (dneg (window_start True))
       \<lparr>z_before = Num 3, z_after = Num 4, i_src = 1, extrapolating = 0\<rparr> (Num 4)
     = Inr (\<lparr>z_before = Num 3, z_after = Num 4, i_src = 1, extrapolating = 0\<rparr>, 0)
   \<and> [[Num 20, Num 40, Num 40], [Num 1, Num 2, Num 2]] ! 0 ! length [Num 3]
     = rows \<lparr>rows = [[Num 20, Num 40, Num 60], [Num 1, Num 2, Num 3]], shape1 = 3\<rparr> ! 0 ! 1
   \<and> [[Num 20, Num 40, Num 40], [Num 1, Num 2, Num 2]] ! 1 ! length [Num 3]
     = rows \<lparr>rows = [[Num 20, Num 40, Num 60], [Num 1, Num 2, Num 3]], shape1 = 3\<rparr> ! 1 ! 1
   \<and> [[Num 30, Num 40, Num 50], [Num (3 / 2), Num 2, Num (5 / 2)]] ! 0 ! length [Num 3]
     = rows \<lparr>rows = [[Num 20, Num 40, Num 60], [Num 1, Num 2, Num 3]], shape1 = 3\<rparr> ! 0 ! 1
   \<and> [[Num 30, Num 40, Num 50], [Num (3 / 2), Num 2, Num (5 / 2)]] ! 1 ! length [Num 3]
     = rows \<lparr>rows = [[Num 20, Num 40, Num 60], [Num 1, Num 2, Num 3]], shape1 = 3\<rparr> ! 1 ! 1"
proof -
  let ?z = "[Num 2, Num 4, Num 6]"
  let ?f = "\<lparr>rows = [[Num 20, Num 40, Num 60], [Num 1, Num 2, Num 3]], shape1 = 3\<rparr>"
  let ?S = "\<lparr>z_before = Num 3, z_after = Num 4, i_src = 1, extrapolating = 0\<rparr>"
  let ?near = "[[Num 20, Num 40, Num 40], [Num 1, Num 2, Num 2]]"
  let ?lin = "[[Num 30, Num 40, Num 50], [Num (3 / 2), Num 2, Num (5 / 2)]]"
  have g: "gridwise_interpolation ([Num 3] @ Num 4 # [Num 5]) ?z ?f True nearest_interp
             nan_data_extrap [[Num 0, Num 0, Num 0], [Num 0, Num 0, Num 0]] = Inr ?near"
    by code_simp
  have g': "gridwise_interpolation ([Num 3] @ Num 4 # [Num 5]) ?z ?f True linear_interp
             nan_data_extrap [[Num 0, Num 0, Num 0], [Num 0, Num 0, Num 0]] = Inr ?lin"
    by code_simp
  have n: "length ([Num 3] @ Num 4 # [Num 5]) < 2 ^ 32"
    by simp
  have s: "state_after nearest_interp nan_data_extrap ?z ?f (dneg (window_start True))
             (initial_state True (?z ! 0)) [Num 3] = Inr ?S"
    by code_simp
  have s': "state_after linear_interp nan_data_extrap ?z ?f (dneg (window_start True))
             (initial_state True (?z ! 0)) [Num 3] = Inr ?S"
    by code_simp
  have l: "locate ?z (dneg (window_start True)) ?S (Num 4) = Inr (?S, 0)"
    by code_simp
  have k: "i_src ?S < u32 (length ?z)"
    by (simp add: u32_def)
  have d: "deq (Num 4) (?z ! unat (i_src ?S))"
    by (simp add: deq_def)
  have w: "wf_view2 ?f"
    by (simp add: wf_view2_def shape0_def)
  have e: "shape1 ?f = length ?z"
    by simp
  have i: "nearest_interp = linear_interp \<or> nearest_interp = nearest_interp"
    by simp
  have i': "linear_interp = linear_interp \<or> linear_interp = nearest_interp"
    by simp
  from exact_match [OF g n s l k d w e i]
  have "\<forall>r<length (rows ?f).
          r < length ?near \<and> length [Num 3] < length (?near ! r)
          \<and> ?near ! r ! length [Num 3] = rows ?f ! r ! unat (i_src ?S)"
    .
  then have near: "?near ! 0 ! length [Num 3] = rows ?f ! 0 ! 1
                 \<and> ?near ! 1 ! length [Num 3] = rows ?f ! 1 ! 1"
    by simp
  from exact_match [OF g' n s' l k d w e i']
  have "\<forall>r<length (rows ?f).
          r < length ?lin \<and> length [Num 3] < length (?lin ! r)
          \<and> ?lin ! r ! length [Num 3] = rows ?f ! r ! unat (i_src ?S)"
    .
  then have lin: "?lin ! 0 ! length [Num 3] = rows ?f ! 0 ! 1
                \<and> ?lin ! 1 ! length [Num 3] = rows ?f ! 1 ! 1"
    by simp
  from g g' s s' l near lin show ?thesis
    by simp
qed

section \<open>NaN in the source coordinate\<close>

lemma unat_succ:
  assumes "unat (x :: uint) < p" and "p < 2 ^ 32"
  shows "unat (x + 1) = Suc (unat x)"
proof -
  have "unat x + unat (1 :: uint) < 2 ^ LENGTH(32)"
    using assms by simp
  then have "unat (x + 1) = unat x + unat (1 :: uint)"
    by (simp only: unat_add_lem)
  then show ?thesis
    by simp
qed

lemma cursor_below: "unat (i :: uint) < n \<Longrightarrow> n < 2 ^ 32 \<Longrightarrow> i < u32 n"
  by (simp add: word_less_nat_alt unat_u32)

lemma advance_hits_nan:
  assumes "sb = sa" and "unat (i_src st) < p" and "p < length z_src"
    and "length z_src < 2 ^ 32" and "isnan (z_src ! p)"
    and "\<forall>k. unat (i_src st) < k \<and> k < p \<longrightarrow>
           \<not> isnan (z_src ! k) \<and> relative_sign (z_src ! k) z_current = sb"
  shows "advance z_src z_last z_current sb st sa = Inl InvalidSource"
  using assms(1,2,6)
proof (induction "p - unat (i_src st)" arbitrary: st sa)
  case 0
  then show ?case by simp
next
  case (Suc d)
  let ?i = "i_src st + 1"
  have p32: "p < 2 ^ 32"
    using assms(3,4) by simp
  have ui: "unat ?i = Suc (unat (i_src st))"
    using Suc.prems(2) p32 by (rule unat_succ)
  have "unat ?i < length z_src"
    using ui Suc.prems(2) assms(3) by simp
  then have inr: "?i < u32 (length z_src)"
    using assms(4) by (rule cursor_below)
  show ?case
  proof (cases "unat ?i = p")
    case True
    with assms(5) inr Suc.prems(1) show ?thesis
      by (simp add: advance_pull)
  next
    case False
    with ui Suc.prems(2) have below: "unat ?i < p"
      by simp
    with ui Suc.prems(3)
    have here: "\<not> isnan (z_src ! unat ?i)" "relative_sign (z_src ! unat ?i) z_current = sb"
      by simp_all
    let ?st1 = "st\<lparr>i_src := ?i, extrapolating := 0, z_after := z_src ! unat ?i\<rparr>"
    have "advance z_src z_last z_current sb ?st1 (relative_sign (z_src ! unat ?i) z_current)
            = Inl InvalidSource"
    proof (rule Suc.hyps(1))
      show "d = p - unat (i_src ?st1)"
        using Suc.hyps(2) ui by simp
      show "sb = relative_sign (z_src ! unat ?i) z_current"
        using here(2) by simp
      show "unat (i_src ?st1) < p"
        using below by simp
      show "\<forall>k. unat (i_src ?st1) < k \<and> k < p \<longrightarrow>
           \<not> isnan (z_src ! k) \<and> relative_sign (z_src ! k) z_current = sb"
        using Suc.prems(3) ui by simp
    qed
    with here(1) inr Suc.prems(1) show ?thesis
      by (simp add: advance_pull)
  qed
qed

text \<open>
  C7 (as the code has it). The marcher looks at a source value only when the search
  pulls it. It fails with \<open>InvalidSource\<close>, leaving the output as it was before this
  target, when the search for a target that is not NaN finds no crossing in the current
  window nor at any sample between the cursor and a NaN sample at position \<open>p\<close>.
\<close>

theorem invalid_source_when_pulled:
  assumes "\<not> isnan z_current"
    and "relative_sign (z_after st) z_current = relative_sign (z_before st) z_current"
    and "unat (i_src st) < p" and "p < length z_src" and "length z_src < 2 ^ 32"
    and "isnan (z_src ! p)"
    and "\<forall>k. unat (i_src st) < k \<and> k < p \<longrightarrow>
           \<not> isnan (z_src ! k)
           \<and> relative_sign (z_src ! k) z_current = relative_sign (z_before st) z_current"
  shows "march ik ek z_src fz_src z_last i_target (z_current # rest) st fz_target
           = Inl (InvalidSource, fz_target)"
proof -
  have "locate z_src z_last st z_current = Inl InvalidSource"
    unfolding locate_def Let_def
    using assms(2-7) by (intro advance_hits_nan [where p = p]) simp_all
  then have "target_step ik ek z_src fz_src z_last st z_current = Inl InvalidSource"
    using assms(1) by (simp add: target_step_def)
  then show ?thesis
    by simp
qed

theorem invalid_source_when_pulled_witness:
  "isnan ([Num 1, Num (3 / 2), NaN] ! 2)
   \<and> march linear_interp nan_data_extrap [Num 1, Num (3 / 2), NaN]
        \<lparr>rows = [[Num 10, Num 20, Num 30]], shape1 = 3\<rparr> (dneg (window_start True)) 0
        [Num 2] (initial_state True (Num 1)) [[Num 0]]
      = Inl (InvalidSource, [[Num 0]])"
proof -
  let ?z = "[Num 1, Num (3 / 2), NaN]"
  let ?st = "initial_state True (Num 1)"
  have nn: "\<not> isnan (Num 2)"
    by simp
  have same: "relative_sign (z_after ?st) (Num 2) = relative_sign (z_before ?st) (Num 2)"
    by code_simp
  have cursor: "unat (i_src ?st) < 2"
    by (simp add: initial_state_def)
  have between: "\<forall>k. unat (i_src ?st) < k \<and> k < 2 \<longrightarrow>
      \<not> isnan (?z ! k) \<and> relative_sign (?z ! k) (Num 2) = relative_sign (z_before ?st) (Num 2)"
  proof (intro allI impI)
    fix k
    assume "unat (i_src ?st) < k \<and> k < 2"
    then have k: "k = 1"
      by (simp add: initial_state_def)
    have "\<not> isnan (?z ! 1) \<and> relative_sign (?z ! 1) (Num 2) = relative_sign (z_before ?st) (Num 2)"
      by code_simp
    with k show "\<not> isnan (?z ! k)
        \<and> relative_sign (?z ! k) (Num 2) = relative_sign (z_before ?st) (Num 2)"
      by simp
  qed
  have nan: "isnan (?z ! 2)"
    by simp
  from invalid_source_when_pulled [OF nn same cursor _ _ nan between,
      of linear_interp nan_data_extrap "\<lparr>rows = [[Num 10, Num 20, Num 30]], shape1 = 3\<rparr>"
         "dneg (window_start True)" 0 "[]" "[[Num 0]]"]
  have "march linear_interp nan_data_extrap ?z
        \<lparr>rows = [[Num 10, Num 20, Num 30]], shape1 = 3\<rparr> (dneg (window_start True)) 0
        [Num 2] ?st [[Num 0]]
      = Inl (InvalidSource, [[Num 0]])"
    by simp
  with nan show ?thesis
    by simp
qed

text \<open>
  A NaN that the search never pulls is not an error: with \<open>z_src = [1, 2, NaN]\<close>, whose
  leading value is not NaN, the target \<open>1.5\<close> is found between the first two samples
  and the marcher returns.
\<close>

theorem invalid_source_counterexample:
  "\<not> isnan ([Num 1, Num 2, NaN] ! 0) \<and> isnan ([Num 1, Num 2, NaN] ! 2)
   \<and> gridwise_interpolation [Num (3 / 2)] [Num 1, Num 2, NaN]
        \<lparr>rows = [[Num 10, Num 20, Num 30]], shape1 = 3\<rparr> True linear_interp nan_data_extrap
        [[Num 0]]
      = Inr [[Num 15]]"
  by code_simp

text \<open>
  The other way round: when the search for a target fails, the error is
  \<open>InvalidSource\<close> and the source holds a NaN.
\<close>

lemma advance_only_fails_on_nan:
  assumes "advance z_src z_last z_current sb st sa = Inl e"
  shows "e = InvalidSource \<and> (\<exists>p<length z_src. isnan (z_src ! p))"
  using assms
proof (induction z_src z_last z_current sb st sa rule: advance.induct)
  case (1 z_src z_last z_current sb st sa)
  show ?case
  proof (cases "sb = sa")
    case False
    with "1.prems" show ?thesis
      by (simp add: advance_stop)
  next
    case same: True
    let ?i = "i_src st + 1"
    show ?thesis
    proof (cases "?i < u32 (length z_src)")
      case False
      with same "1.prems" show ?thesis
        by (simp add: advance_end)
    next
      case inr: True
      have len: "unat ?i < length z_src"
        by (rule cursor_in_range [OF inr])
      show ?thesis
      proof (cases "isnan (z_src ! unat ?i)")
        case True
        with same inr "1.prems" len show ?thesis
          by (auto simp: advance_pull)
      next
        case False
        with same inr "1.prems"
        have "advance z_src z_last z_current sb
                (st\<lparr>i_src := ?i, extrapolating := 0, z_after := z_src ! unat ?i\<rparr>)
                (relative_sign (z_src ! unat ?i) z_current) = Inl e"
          by (simp add: advance_pull)
        with "1.IH" [OF same refl inr _ False] len show ?thesis
          by simp
      qed
    qed
  qed
qed

section \<open>NaN in the target coordinate\<close>

lemma march_stops_at_nan:
  assumes "isnan t"
  shows "march ik ek z_src fz_src z_last i_target (pre @ t # post) st buf
           = (case march ik ek z_src fz_src z_last i_target pre st buf of
                Inl failure \<Rightarrow> Inl failure
              | Inr buf' \<Rightarrow> Inl (InvalidTarget, buf'))"
proof (induction pre arbitrary: i_target st buf)
  case Nil
  show ?case
    using assms by (simp add: target_step_def)
next
  case (Cons p pre)
  show ?case
    by (simp add: Cons.IH split: sum.splits prod.splits)
qed

text \<open>
  C2 (as the code has it). The target is checked value by value inside the loop, after
  the test for an all-NaN source. For a source column that is not all NaN and a target
  sequence with a NaN at some position, the marcher never returns normally: it fails as
  the march over the targets before that position fails, and otherwise with
  \<open>InvalidTarget\<close> and the output buffer as those targets left it (untouched when the
  NaN comes first).
\<close>

theorem nan_target:
  assumes "isnan t" and "length (pre @ t # post) < 2 ^ 32"
    and "z_src \<noteq> []" and "length z_src < 2 ^ 32" and "\<not> list_all isnan z_src"
  shows "gridwise_interpolation (pre @ t # post) z_src fz_src increasing ik ek fz_target
           = (case march ik ek z_src fz_src (dneg (window_start increasing)) 0 pre
                     (initial_state increasing (z_src ! 0)) fz_target of
                Inl failure \<Rightarrow> Inl failure
              | Inr buf \<Rightarrow> Inl (InvalidTarget, buf))"
proof -
  have "source_all_nans (pre @ t # post) z_src = Inr False"
    using assms(2-5)
    by (simp add: source_all_nans_def scan_all_nans_iff unat_u32)
  then show ?thesis
    using assms(2,3) march_stops_at_nan [OF assms(1)]
    by (simp add: gridwise_interpolation_def unat_u32)
qed

theorem nan_target_witness:
  "gridwise_interpolation [Num 3, NaN, Num 5] [Num 2, Num 4, Num 6]
        \<lparr>rows = [[Num 2, Num 4, Num 6]], shape1 = 3\<rparr> True linear_interp nan_data_extrap
        [[Num 0, Num 0, Num 0]]
      = Inl (InvalidTarget, [[Num 3, Num 0, Num 0]])"
proof -
  let ?z = "[Num 2, Num 4, Num 6]"
  let ?f = "\<lparr>rows = [[Num 2, Num 4, Num 6]], shape1 = 3\<rparr>"
  have before: "march linear_interp nan_data_extrap ?z ?f (dneg (window_start True)) 0 [Num 3]
          (initial_state True (?z ! 0)) [[Num 0, Num 0, Num 0]]
        = Inr [[Num 3, Num 0, Num 0]]"
    by code_simp
  from nan_target [of NaN "[Num 3]" "[Num 5]" ?z ?f True linear_interp nan_data_extrap
      "[[Num 0, Num 0, Num 0]]"]
  show ?thesis
    unfolding before by simp
qed

text \<open>
  The claim as the specification words it fails in two ways. An all-NaN source column
  is filled with NaN and never looks at the target, so a NaN target raises nothing; and
  with the targets \<open>[3, NaN]\<close> the value for \<open>3\<close> is in the buffer when
  \<open>InvalidTarget\<close> is raised.
\<close>

theorem nan_target_counterexample:
  "isnan ([NaN] ! 0)
   \<and> gridwise_interpolation [NaN] [NaN] \<lparr>rows = [[Num 10]], shape1 = 1\<rparr> True linear_interp
        nan_data_extrap [[Num 0]]
      = Inr [[NaN]]
   \<and> isnan ([Num 3, NaN] ! 1)
   \<and> gridwise_interpolation [Num 3, NaN] [Num 2, Num 4, Num 6]
        \<lparr>rows = [[Num 2, Num 4, Num 6]], shape1 = 3\<rparr> True linear_interp nan_data_extrap
        [[Num 0, Num 0]]
      = Inl (InvalidTarget, [[Num 3, Num 0]])"
  by code_simp

section \<open>The axis check\<close>

lemma reshape_infer_error: "reshape_infer n known = Inl e \<Longrightarrow> e = ReshapeError"
  by (auto simp: reshape_infer_def split: if_splits)

lemma first_two_rising_error: "first_two_rising z k = Inl e \<Longrightarrow> e = OutOfBounds"
  by (auto simp: first_two_rising_def rd_def bindE_eq_Inl split: if_splits)

lemma init_after_axis_error:
  "init_after_axis issubdtype_int z_target z_src fz_src fz_dtype axis rising interpolation
       extrapolation z_target_size fp_axis zp_axis = Inl e
   \<Longrightarrow> e \<in> {ShapeMismatch, ReshapeError, AmbiguousDirection, OutOfBounds}"
  unfolding init_after_axis_def Let_def
  by (auto simp: bindE_eq_Inl dest: reshape_infer_error first_two_rising_error
      split: if_splits option.splits)

text \<open>
  C4 (as the code has it). For data of rank at least 1 and a one-dimensional target,
  \<open>__init__\<close> fails with \<open>AxisOutOfRange\<close> exactly when the axis, resolved modulo the
  rank of the data and moved into the coordinate's rank by subtracting the difference of
  the ranks, is outside the coordinate's rank, or the axis as given is greater than the
  coordinate's rank. Nothing later in \<open>__init__\<close> raises this error.
\<close>

theorem axis_out_of_range_iff:
  assumes "shape fz_src \<noteq> []" and "length (shape z_target) = 1"
  shows "Interpolator_init issubdtype_int z_target z_src fz_src fz_dtype axis rising
           interpolation extrapolation = Inl AxisOutOfRange
         \<longleftrightarrow>
         (let fz_ndim = int (length (shape fz_src));
              z_ndim = int (length (shape z_src));
              fp_axis = (axis + fz_ndim) mod fz_ndim;
              zp_axis = fp_axis - (fz_ndim - z_ndim)
          in zp_axis < 0 \<or> z_ndim \<le> zp_axis \<or> z_ndim < axis)"
proof -
  let ?fz_ndim = "int (length (shape fz_src))"
  let ?z_ndim = "int (length (shape z_src))"
  let ?fp_axis = "(axis + ?fz_ndim) mod ?fz_ndim"
  let ?zp_axis = "?fp_axis - (?fz_ndim - ?z_ndim)"
  have pos: "?fz_ndim \<noteq> 0"
    using assms(1) by simp
  have start: "Interpolator_init issubdtype_int z_target z_src fz_src fz_dtype axis rising
           interpolation extrapolation
         = (if \<not> (0 \<le> ?zp_axis \<and> ?zp_axis < ?z_ndim) \<or> axis > ?z_ndim then Inl AxisOutOfRange
            else init_after_axis issubdtype_int z_target z_src fz_src fz_dtype axis rising
                   interpolation extrapolation (shape z_target ! 0) ?fp_axis ?zp_axis)"
    unfolding Interpolator_init_def Let_def py_mod_def using pos assms(2) by simp
  have later: "init_after_axis issubdtype_int z_target z_src fz_src fz_dtype axis rising
                   interpolation extrapolation (shape z_target ! 0) ?fp_axis ?zp_axis
               \<noteq> Inl AxisOutOfRange"
    using init_after_axis_error [of issubdtype_int z_target z_src fz_src fz_dtype axis rising
      interpolation extrapolation "shape z_target ! 0" ?fp_axis ?zp_axis AxisOutOfRange]
    by auto
  show ?thesis
    unfolding start Let_def using later by auto
qed

theorem axis_out_of_range_witness:
  "Interpolator_init (\<lambda>d. False) \<lparr>shape = [2], data = [Num 3, Num 5]\<rparr>
      \<lparr>shape = [3], data = [Num 2, Num 4, Num 6]\<rparr>
      \<lparr>shape = [2, 3], data = [Num 2, Num 4, Num 6, Num 20, Num 40, Num 60]\<rparr> F8 0 None
      INTERPOLATE_LINEAR EXTRAPOLATE_NAN
    = Inl AxisOutOfRange"
  using axis_out_of_range_iff [of "\<lparr>shape = [2, 3], data = [Num 2, Num 4, Num 6, Num 20, Num 40, Num 60]\<rparr>"
      "\<lparr>shape = [2], data = [Num 3, Num 5]\<rparr>" "\<lambda>d. False"
      "\<lparr>shape = [3], data = [Num 2, Num 4, Num 6]\<rparr>" F8 0 None
      INTERPOLATE_LINEAR EXTRAPOLATE_NAN]
  by simp

text \<open>
  The second test, \<open>axis > z_src.ndim\<close>, rejects axis values whose resolved coordinate
  axis is in bounds: data of rank 3, a coordinate of rank 1 and \<open>axis = 2\<close> resolve to
  the coordinate axis 0, and the call fails with \<open>AxisOutOfRange\<close>.
\<close>

theorem axis_out_of_range_counterexample:
  "(2 + int (length [1, 2, 3 :: nat])) mod int (length [1, 2, 3 :: nat])
      - (int (length [1, 2, 3 :: nat]) - int (length [3 :: nat])) = 0
   \<and> Interpolator_init (\<lambda>d. False) \<lparr>shape = [2], data = [Num 3, Num 5]\<rparr>
      \<lparr>shape = [3], data = [Num 2, Num 4, Num 6]\<rparr>
      \<lparr>shape = [1, 2, 3], data = [Num 2, Num 4, Num 6, Num 20, Num 40, Num 60]\<rparr> F8 2 None
      INTERPOLATE_LINEAR EXTRAPOLATE_NAN
    = Inl AxisOutOfRange"
  by (simp add: Interpolator_init_def py_mod_def)

section \<open>The shape and the element type of the result\<close>

lemma reshape_infer_Inr:
  "reshape_infer n known = Inr x \<longleftrightarrow> known \<noteq> 0 \<and> n mod known = 0 \<and> x = n div known"
  by (auto simp: reshape_infer_def)

lemma init_after_axis_Inr:
  assumes "init_after_axis issubdtype_int z_target z_src fz_src fz_dtype axis rising
             interpolation extrapolation z_target_size fp_axis zp_axis = Inr self"
  shows "self_result_shape self = (shape fz_src)[nat fp_axis := z_target_size]
       \<and> self_target_dtype self = (if issubdtype_int fz_dtype then F8 else fz_dtype)
       \<and> self_z_target self = z_target
       \<and> (\<exists>row_count lh n tr.
             self_result_working_shape self = [row_count, lh, z_target_size, tr]
             \<and> shape (self_zp_reshaped self) = [lh, n, tr]
             \<and> shape (self_fp_reshaped self) = [row_count, lh, n, tr]
             \<and> n \<noteq> 0)"
  using assms unfolding init_after_axis_def Let_def
  by (auto simp: bindE_eq_Inr reshape_infer_Inr split: if_splits)

lemma Interpolator_init_Inr:
  assumes "Interpolator_init issubdtype_int z_target z_src fz_src fz_dtype axis rising
             interpolation extrapolation = Inr self"
  shows "shape fz_src \<noteq> []
       \<and> 0 \<le> (axis + int (length (shape fz_src))) mod int (length (shape fz_src))
                 - (int (length (shape fz_src)) - int (length (shape z_src)))
       \<and> (axis + int (length (shape fz_src))) mod int (length (shape fz_src))
                 - (int (length (shape fz_src)) - int (length (shape z_src)))
             < int (length (shape z_src))
       \<and> (\<exists>z_target_size.
            (length (shape z_target) = 1 \<longrightarrow> z_target_size = shape z_target ! 0)
            \<and> init_after_axis issubdtype_int z_target z_src fz_src fz_dtype axis rising
                 interpolation extrapolation z_target_size
                 ((axis + int (length (shape fz_src))) mod int (length (shape fz_src)))
                 ((axis + int (length (shape fz_src))) mod int (length (shape fz_src))
                    - (int (length (shape fz_src)) - int (length (shape z_src))))
               = Inr self)"
  using assms unfolding Interpolator_init_def Let_def
  by (auto simp: bindE_eq_Inr py_mod_def split: if_splits)

lemma fp_axis_in_range:
  assumes "shape fz_src \<noteq> []"
  shows "nat ((axis + int (length (shape fz_src))) mod int (length (shape fz_src)))
           < length (shape fz_src)"
proof -
  let ?n = "int (length (shape fz_src))"
  have pos: "0 < ?n"
    using assms by simp
  have "0 \<le> (axis + ?n) mod ?n" and "(axis + ?n) mod ?n < ?n"
    using pos by simp_all
  then show ?thesis
    by (simp add: nat_less_iff)
qed

lemma length_fold:
  "(\<And>x c. length (f x c) = length c) \<Longrightarrow> length (fold f xs c) = length c"
  by (induction xs arbitrary: c) simp_all

lemma length_put_view: "length (put_view shp cells i j view) = length cells"
  unfolding put_view_def by (intro length_fold) simp

lemma foldE_preserves:
  assumes "\<And>x s s'. f x s = Inr s' \<Longrightarrow> P s \<Longrightarrow> P s'"
    and "P s" and "foldE f xs s = Inr s'"
  shows "P s'"
  using assms(2,3)
proof (induction xs arbitrary: s)
  case Nil
  then show ?case by simp
next
  case (Cons x xs)
  from Cons.prems(2) obtain s1 where "f x s = Inr s1" and "foldE f xs s1 = Inr s'"
    by (auto simp: bindE_eq_Inr)
  with Cons.IH [of s1] assms(1) [of x s s1] Cons.prems(1) show ?case
    by simp
qed

lemma column_march_length:
  assumes "column_march self x cells = Inr cells'"
  shows "length cells' = length cells"
  using assms
  by (cases x) (auto simp: column_march_def length_put_view split: sum.splits prod.splits)

lemma march_columns_length:
  assumes "march_columns garbage self = Inr cells"
  shows "length cells = prod_list (self_result_working_shape self)"
proof -
  let ?w = "self_result_working_shape self"
  from assms
  have loop: "foldE (column_march self)
                (column_loop (unat (u32 (?w ! 1))) (unat (u32 (?w ! 3))))
                (np_empty garbage ?w) = Inr cells"
    by (simp add: march_columns_def Let_def)
  have "length cells = length (np_empty garbage ?w)"
  proof (rule foldE_preserves [where P = "\<lambda>c. length c = length (np_empty garbage ?w)",
        OF _ _ loop])
    fix x s s'
    assume "column_march self x s = Inr s'" and "length s = length (np_empty garbage ?w)"
    then show "length s' = length (np_empty garbage ?w)"
      by (simp add: column_march_length)
  qed simp
  then show ?thesis
    by (simp add: np_empty_def)
qed

lemma Interpolator_interpolate_Inr:
  assumes "Interpolator_interpolate garbage self = Inr res"
  shows "length (shape (self_z_target self)) = 1
       \<and> res_shape res = self_result_shape self
       \<and> res_dtype res = self_target_dtype self
       \<and> march_columns garbage self = Inr (res_values res)
       \<and> length (res_values res) = prod_list (self_result_shape self)"
proof -
  from assms obtain cells where
    one_d: "length (shape (self_z_target self)) = 1"
    and loop: "march_columns garbage self = Inr cells"
    and same: "prod_list (self_result_shape self) = prod_list (self_result_working_shape self)"
    and res: "res = \<lparr>res_shape = self_result_shape self, res_dtype = self_target_dtype self,
                     res_values = cells\<rparr>"
    unfolding Interpolator_interpolate_def
    by (auto simp: bindE_eq_Inr split: if_splits)
  from march_columns_length [OF loop] one_d loop same res show ?thesis
    by simp
qed


lemma prod_list_update:
  "i < length xs \<Longrightarrow> prod_list (xs[i := v]) * xs ! i = prod_list xs * (v :: nat)"
proof (induction xs arbitrary: i)
  case Nil
  then show ?case by simp
next
  case (Cons x xs)
  show ?case
  proof (cases i)
    case 0
    then show ?thesis by (simp add: mult_ac)
  next
    case (Suc k)
    with Cons.prems have "k < length xs" by simp
    from Cons.IH [OF this] have "x * (prod_list (xs[k := v]) * xs ! k) = x * (prod_list xs * v)"
      by simp
    with Suc show ?thesis by (simp add: mult_ac)
  qed
qed

lemma reshape_infer_mult: "reshape_infer n known = Inr x \<Longrightarrow> x * known = n \<and> known \<noteq> 0"
  by (auto simp: reshape_infer_Inr)

lemma init_after_axis_sizes:
  assumes "init_after_axis issubdtype_int z_target z_src fz_src fz_dtype axis rising
             interpolation extrapolation z_target_size fp_axis zp_axis = Inr self"
  shows "shape z_src = py_slice_last (shape fz_src) (length (shape z_src))
       \<and> shape z_src ! nat zp_axis \<noteq> 0
       \<and> (\<exists>row_count lh tr.
             self_result_working_shape self = [row_count, lh, z_target_size, tr]
             \<and> row_count * (lh * (shape z_src ! nat zp_axis) * tr) = prod_list (shape fz_src))"
  using assms unfolding init_after_axis_def Let_def
  by (auto simp: bindE_eq_Inr mult.assoc dest!: reshape_infer_mult split: if_splits)


lemma py_slice_last_eq:
  assumes "zs = py_slice_last fs (length zs)" and "zs \<noteq> []"
  shows "length zs \<le> length fs \<and> zs = drop (length fs - length zs) fs"
proof -
  from assms have eq: "zs = drop (length fs - length zs) fs"
    by (simp add: py_slice_last_def)
  have "length zs \<le> length fs"
  proof (rule ccontr)
    assume "\<not> length zs \<le> length fs"
    then have "length fs - length zs = 0" and "length fs < length zs"
      by simp_all
    with eq show False
      by simp
  qed
  with eq show ?thesis
    by simp
qed

lemma result_reshape_fits:
  assumes "Interpolator_init issubdtype_int z_target z_src fz_src fz_dtype axis rising
             interpolation extrapolation = Inr self"
  shows "prod_list (self_result_shape self) = prod_list (self_result_working_shape self)"
proof -
  let ?fs = "shape fz_src" and ?zs = "shape z_src"
  let ?fp = "(axis + int (length ?fs)) mod int (length ?fs)"
  let ?zp = "?fp - (int (length ?fs) - int (length ?zs))"
  from Interpolator_init_Inr [OF assms] obtain z_target_size where
    rank: "?fs \<noteq> []" and lo: "0 \<le> ?zp" and hi: "?zp < int (length ?zs)"
    and after: "init_after_axis issubdtype_int z_target z_src fz_src fz_dtype axis rising
                 interpolation extrapolation z_target_size ?fp ?zp = Inr self"
    by blast
  from init_after_axis_sizes [OF after] obtain row_count lh tr where
    slice: "?zs = py_slice_last ?fs (length ?zs)"
    and n: "?zs ! nat ?zp \<noteq> 0"
    and wshape: "self_result_working_shape self = [row_count, lh, z_target_size, tr]"
    and total: "row_count * (lh * (?zs ! nat ?zp) * tr) = prod_list ?fs"
    by blast
  have rshape: "self_result_shape self = ?fs[nat ?fp := z_target_size]"
    using init_after_axis_Inr [OF after] by simp
  have nonempty: "?zs \<noteq> []"
    using lo hi by auto
  from py_slice_last_eq [OF slice nonempty]
  have le: "length ?zs \<le> length ?fs" and drop: "?zs = drop (length ?fs - length ?zs) ?fs"
    by simp_all
  have fp: "nat ?fp < length ?fs"
    by (rule fp_axis_in_range [OF rank])
  have split: "nat ?fp = (length ?fs - length ?zs) + nat ?zp"
    using lo le by linarith
  have "?zs ! nat ?zp = drop (length ?fs - length ?zs) ?fs ! nat ?zp"
    using drop by simp
  also have "\<dots> = ?fs ! nat ?fp"
    using le split by simp
  finally have same: "?zs ! nat ?zp = ?fs ! nat ?fp" .
  have "prod_list (?fs[nat ?fp := z_target_size]) * (?fs ! nat ?fp)
          = prod_list ?fs * z_target_size"
    by (rule prod_list_update [OF fp])
  also have "\<dots> = (row_count * lh * z_target_size * tr) * (?fs ! nat ?fp)"
    using total same by (simp add: mult_ac)
  finally have "prod_list (?fs[nat ?fp := z_target_size]) = row_count * lh * z_target_size * tr"
    using n same by simp
  then show ?thesis
    by (simp add: rshape wshape mult_ac)
qed

lemma interpolate_returns:
  assumes init: "Interpolator_init issubdtype_int z_target z_src fz_src fz_dtype axis rising
             interpolation extrapolation = Inr self"
    and one_d: "length (shape z_target) = 1"
    and loop: "march_columns garbage self = Inr cells"
  shows "interpolate issubdtype_int garbage z_target z_src fz_src fz_dtype axis rising
           interpolation extrapolation
         = Inr \<lparr>res_shape = self_result_shape self, res_dtype = self_target_dtype self,
                res_values = cells\<rparr>"
proof -
  from Interpolator_init_Inr [OF init] obtain z_target_size where
    after: "init_after_axis issubdtype_int z_target z_src fz_src fz_dtype axis rising
                 interpolation extrapolation z_target_size
                 ((axis + int (length (shape fz_src))) mod int (length (shape fz_src)))
                 ((axis + int (length (shape fz_src))) mod int (length (shape fz_src))
                    - (int (length (shape fz_src)) - int (length (shape z_src))))
               = Inr self"
    by blast
  have target: "self_z_target self = z_target"
    using init_after_axis_Inr [OF after] by simp
  show ?thesis
    unfolding interpolate_def Interpolator_interpolate_def
    using one_d result_reshape_fits [OF init] loop
    by (simp add: init target)
qed






section \<open>An empty target\<close>

lemma gridwise_no_targets:
  "z_src \<noteq> [] \<Longrightarrow>
   gridwise_interpolation [] z_src fz_src increasing ik ek fz_target = Inr fz_target"
  by (simp add: gridwise_interpolation_def source_all_nans_def u32_def)

lemma fold_no_change: "(\<And>x c. f x c = c) \<Longrightarrow> fold f xs c = c"
  by (induction xs arbitrary: c) simp_all

lemma put_view_no_targets: "shp ! 2 = 0 \<Longrightarrow> put_view shp cells i j view = cells"
  by (simp add: put_view_def fold_no_change)

lemma foldE_const: "(\<And>x. x \<in> set xs \<Longrightarrow> f x s = Inr s) \<Longrightarrow> foldE f xs s = Inr s"
  by (induction xs) simp_all

lemma prod_list_update_zero: "i < length xs \<Longrightarrow> prod_list (xs[i := 0 :: nat]) = 0"
  by (simp add: prod_list_zero_iff set_update_memI)

text \<open>
  C10. For a target with no values and arguments that \<open>__init__\<close> accepts,
  \<open>interpolate\<close> returns an array whose extent along the interpolation axis is 0 (and
  which has no values), whatever the source coordinate holds: with no target the marcher
  neither scans the column for NaN nor enters the loop over the targets.
\<close>

theorem empty_target:
  assumes "Interpolator_init issubdtype_int z_target z_src fz_src fz_dtype axis rising
             interpolation extrapolation = Inr self"
    and "shape z_target = [0]" and "data z_target = []"
  shows "interpolate issubdtype_int garbage z_target z_src fz_src fz_dtype axis rising
           interpolation extrapolation
         = Inr \<lparr>res_shape =
                  (shape fz_src)
                    [nat ((axis + int (length (shape fz_src))) mod int (length (shape fz_src)))
                       := 0],
                res_dtype = (if issubdtype_int fz_dtype then F8 else fz_dtype),
                res_values = []\<rparr>
         \<and> (shape fz_src)
              [nat ((axis + int (length (shape fz_src))) mod int (length (shape fz_src))) := 0]
            ! nat ((axis + int (length (shape fz_src))) mod int (length (shape fz_src))) = 0"
proof -
  let ?fp = "nat ((axis + int (length (shape fz_src))) mod int (length (shape fz_src)))"
  from Interpolator_init_Inr [OF assms(1)] obtain z_target_size where
    rank: "shape fz_src \<noteq> []"
    and size: "length (shape z_target) = 1 \<longrightarrow> z_target_size = shape z_target ! 0"
    and
    after: "init_after_axis issubdtype_int z_target z_src fz_src fz_dtype axis rising
                 interpolation extrapolation z_target_size
                 ((axis + int (length (shape fz_src))) mod int (length (shape fz_src)))
                 ((axis + int (length (shape fz_src))) mod int (length (shape fz_src))
                    - (int (length (shape fz_src)) - int (length (shape z_src))))
               = Inr self"
    by blast
  have zero: "z_target_size = 0"
    using size assms(2) by simp
  from init_after_axis_Inr [OF after] obtain row_count lh n tr where
    rshape: "self_result_shape self = (shape fz_src)[?fp := 0]"
    and dtype: "self_target_dtype self = (if issubdtype_int fz_dtype then F8 else fz_dtype)"
    and target: "self_z_target self = z_target"
    and wshape: "self_result_working_shape self = [row_count, lh, 0, tr]"
    and zshape: "shape (self_zp_reshaped self) = [lh, n, tr]"
    and n: "n \<noteq> 0"
    unfolding zero by blast
  have fp: "?fp < length (shape fz_src)"
    by (rule fp_axis_in_range [OF rank])
  have column: "z_column (self_zp_reshaped self) i j \<noteq> []" for i j
    using n by (simp add: z_column_def zshape)
  have step: "column_march self x [] = Inr []" for x
    by (cases x)
      (simp add: column_march_def target assms(3) gridwise_no_targets [OF column]
        put_view_no_targets wshape)
  have empty: "np_empty garbage [row_count, lh, 0, tr] = []"
    by (simp add: np_empty_def)
  have loop: "march_columns garbage self = Inr []"
    unfolding march_columns_def Let_def wshape empty by (rule foldE_const) (rule step)
  have one_d: "length (shape z_target) = 1"
    using assms(2) by simp
  have "interpolate issubdtype_int garbage z_target z_src fz_src fz_dtype axis rising
           interpolation extrapolation
         = Inr \<lparr>res_shape = self_result_shape self, res_dtype = self_target_dtype self,
                res_values = []\<rparr>"
    using assms(1) one_d loop by (rule interpolate_returns)
  then show ?thesis
    using fp by (simp add: rshape dtype)
qed

theorem empty_target_witness:
  "interpolate (\<lambda>d. True) (\<lambda>k. Num 0) \<lparr>shape = [0], data = []\<rparr>
      \<lparr>shape = [3], data = [Num 2, NaN, NaN]\<rparr>
      \<lparr>shape = [2, 3], data = [Num 2, Num 4, Num 6, Num 20, Num 40, Num 60]\<rparr>
      (Other_dtype ''i8'') (- 1) (Some True) INTERPOLATE_LINEAR EXTRAPOLATE_NAN
    = Inr \<lparr>res_shape = [2, 0], res_dtype = F8, res_values = []\<rparr>"
proof -
  have "\<exists>self. Interpolator_init (\<lambda>d. True) \<lparr>shape = [0], data = []\<rparr>
      \<lparr>shape = [3], data = [Num 2, NaN, NaN]\<rparr>
      \<lparr>shape = [2, 3], data = [Num 2, Num 4, Num 6, Num 20, Num 40, Num 60]\<rparr>
      (Other_dtype ''i8'') (- 1) (Some True) INTERPOLATE_LINEAR EXTRAPOLATE_NAN = Inr self"
    by (simp add: Interpolator_init_def init_after_axis_def py_mod_def py_slice_last_def
        cumprod_def reshape_infer_def Let_def)
  then obtain self where "Interpolator_init (\<lambda>d. True) \<lparr>shape = [0], data = []\<rparr>
      \<lparr>shape = [3], data = [Num 2, NaN, NaN]\<rparr>
      \<lparr>shape = [2, 3], data = [Num 2, Num 4, Num 6, Num 20, Num 40, Num 60]\<rparr>
      (Other_dtype ''i8'') (- 1) (Some True) INTERPOLATE_LINEAR EXTRAPOLATE_NAN = Inr self"
    by blast
  from empty_target [OF this, of "\<lambda>k. Num 0"] show ?thesis
    by simp
qed

section \<open>A NaN target at the level of the driver\<close>

text \<open>
  The error of a column ends the call, so with a NaN among the target values
  \<open>interpolate\<close> can only return an array when every column it marched over is all
  NaN.
\<close>

lemma foldE_Inr_step:
  assumes "foldE f xs s = Inr s'" and "x \<in> set xs"
  shows "\<exists>s1 s2. f x s1 = Inr s2"
  using assms
proof (induction xs arbitrary: s)
  case Nil
  then show ?case by simp
next
  case (Cons y ys)
  from Cons.prems(1) obtain s1 where first: "f y s = Inr s1" and rest: "foldE f ys s1 = Inr s'"
    by (auto simp: bindE_eq_Inr)
  show ?case
  proof (cases "x = y")
    case True
    with first show ?thesis by blast
  next
    case False
    with Cons.prems(2) have "x \<in> set ys" by simp
    from Cons.IH [OF rest this] show ?thesis .
  qed
qed

lemma gridwise_fails_on_nan:
  assumes "\<exists>t \<in> set z_target. isnan t" and "length z_target < 2 ^ 32"
    and "z_src \<noteq> []" and "length z_src < 2 ^ 32" and "\<not> list_all isnan z_src"
  shows "gridwise_interpolation z_target z_src fz_src increasing ik ek fz_target \<noteq> Inr buf"
proof -
  from assms(1) obtain pre t post where split: "z_target = pre @ t # post" and nan: "isnan t"
    by (auto simp: in_set_conv_decomp)
  have "source_all_nans z_target z_src = Inr False"
    using assms(2-5) split
    by (simp add: source_all_nans_def scan_all_nans_iff unat_u32)
  then show ?thesis
    using assms(2,3) march_stops_at_nan [OF nan, of ik ek z_src fz_src _ 0 pre post]
    by (simp add: gridwise_interpolation_def unat_u32 split split: sum.splits)
qed

lemma interpolate_fails_on_nan:
  assumes init: "Interpolator_init issubdtype_int z_target z_src fz_src fz_dtype axis rising
             interpolation extrapolation = Inr self"
    and nan: "\<exists>t \<in> set (data z_target). isnan t"
    and sizes: "length (data z_target) < 2 ^ 32" "shape (self_zp_reshaped self) ! 1 < 2 ^ 32"
    and returns: "interpolate issubdtype_int garbage z_target z_src fz_src fz_dtype axis rising
             interpolation extrapolation = Inr res"
    and column: "(i, j) \<in> set (column_loop
                    (unat (u32 (self_result_working_shape self ! 1)))
                    (unat (u32 (self_result_working_shape self ! 3))))"
  shows "list_all isnan (z_column (self_zp_reshaped self) i j)"
proof (rule ccontr)
  assume mixed: "\<not> list_all isnan (z_column (self_zp_reshaped self) i j)"
  let ?w = "self_result_working_shape self"
  from returns init have run: "Interpolator_interpolate garbage self = Inr res"
    by (simp add: interpolate_def)
  from Interpolator_interpolate_Inr [OF run]
  have loop: "foldE (column_march self)
                (column_loop (unat (u32 (?w ! 1))) (unat (u32 (?w ! 3))))
                (np_empty garbage ?w) = Inr (res_values res)"
    by (simp add: march_columns_def Let_def)
  from foldE_Inr_step [OF loop column] obtain c1 c2 where
    "column_march self (i, j) c1 = Inr c2"
    by blast
  then obtain view where
    march: "gridwise_interpolation (data (self_z_target self))
                           (z_column (self_zp_reshaped self) i j)
                           (fz_columns (self_fp_reshaped self) i j)
                           (self_rising self) (self_interpolation self)
                           (self_extrapolation self) (get_view ?w c1 i j) = Inr view"
    by (auto simp: column_march_def split: sum.splits prod.splits)
  from Interpolator_init_Inr [OF init] obtain z_target_size where
    after: "init_after_axis issubdtype_int z_target z_src fz_src fz_dtype axis rising
                 interpolation extrapolation z_target_size
                 ((axis + int (length (shape fz_src))) mod int (length (shape fz_src)))
                 ((axis + int (length (shape fz_src))) mod int (length (shape fz_src))
                    - (int (length (shape fz_src)) - int (length (shape z_src))))
               = Inr self"
    by blast
  have target: "self_z_target self = z_target"
    using init_after_axis_Inr [OF after] by simp
  have nonempty: "z_column (self_zp_reshaped self) i j \<noteq> []"
    using init_after_axis_Inr [OF after] by (auto simp: z_column_def)
  have short: "length (z_column (self_zp_reshaped self) i j) < 2 ^ 32"
    using sizes(2) by (simp add: z_column_def)
  from gridwise_fails_on_nan [OF _ _ nonempty short mixed] nan sizes(1) march target
  show False
    by auto
qed

end
